theory Spec2Isabelle
  imports Complex_Main "HOL-Library.Char_ord" "HOL-Library.List_Lexorder"
    "HOL-Library.Product_Lexorder"
begin

section \<open>Python values used by the sales analytics code\<close>

subsection \<open>Floats\<close>

text \<open>
  A Python \<open>float\<close> is kept as its exact value: a finite float is the rational number
  it denotes, and the three special values that \<open>float()\<close> reads from the texts
  \<open>inf\<close>, \<open>-inf\<close> and \<open>nan\<close> are constructors of their own. Comparisons follow
  IEEE 754 as Python applies it: every ordered comparison and every equality test
  with \<open>nan\<close> is false. Arithmetic on finite values is exact; rounding to binary64,
  overflow of a finite result, the sign of zero and the \<open>OverflowError\<close> of converting
  an integer beyond the float range are outside the model.
\<close>

datatype pyfloat = Fin rat | PInf | NInf | NaN

datatype py_error = ZeroDivisionError

fun pf_lt :: "pyfloat \<Rightarrow> pyfloat \<Rightarrow> bool" where
  "pf_lt (Fin a) (Fin b) = (a < b)"
| "pf_lt (Fin a) PInf = True"
| "pf_lt (Fin a) NInf = False"
| "pf_lt (Fin a) NaN = False"
| "pf_lt PInf y = False"
| "pf_lt NInf (Fin b) = True"
| "pf_lt NInf PInf = True"
| "pf_lt NInf NInf = False"
| "pf_lt NInf NaN = False"
| "pf_lt NaN y = False"

fun pf_eq :: "pyfloat \<Rightarrow> pyfloat \<Rightarrow> bool" where
  "pf_eq (Fin a) y = (case y of Fin b \<Rightarrow> a = b | _ \<Rightarrow> False)"
| "pf_eq PInf y = (y = PInf)"
| "pf_eq NInf y = (y = NInf)"
| "pf_eq NaN y = False"

definition pf_le :: "pyfloat \<Rightarrow> pyfloat \<Rightarrow> bool" where
  "pf_le x y = (pf_lt x y \<or> pf_eq x y)"

definition pf_gt :: "pyfloat \<Rightarrow> pyfloat \<Rightarrow> bool" where
  "pf_gt x y = pf_lt y x"

definition pf_ge :: "pyfloat \<Rightarrow> pyfloat \<Rightarrow> bool" where
  "pf_ge x y = pf_le y x"

fun pf_add :: "pyfloat \<Rightarrow> pyfloat \<Rightarrow> pyfloat" where
  "pf_add (Fin a) (Fin b) = Fin (a + b)"
| "pf_add (Fin a) PInf = PInf"
| "pf_add (Fin a) NInf = NInf"
| "pf_add PInf (Fin b) = PInf"
| "pf_add PInf PInf = PInf"
| "pf_add PInf NInf = NaN"
| "pf_add NInf (Fin b) = NInf"
| "pf_add NInf NInf = NInf"
| "pf_add NInf PInf = NaN"
| "pf_add NaN y = NaN"
| "pf_add x NaN = NaN"

text \<open>Multiplication by an infinity takes the sign of the other factor; \<open>0 * inf\<close> is \<open>nan\<close>.\<close>

definition inf_of_sign :: "rat \<Rightarrow> pyfloat" where
  "inf_of_sign a = (if a = 0 then NaN else if 0 < a then PInf else NInf)"

fun pf_neg :: "pyfloat \<Rightarrow> pyfloat" where
  "pf_neg (Fin a) = Fin (- a)"
| "pf_neg PInf = NInf"
| "pf_neg NInf = PInf"
| "pf_neg NaN = NaN"

fun pf_mul :: "pyfloat \<Rightarrow> pyfloat \<Rightarrow> pyfloat" where
  "pf_mul (Fin a) (Fin b) = Fin (a * b)"
| "pf_mul (Fin a) PInf = inf_of_sign a"
| "pf_mul (Fin a) NInf = pf_neg (inf_of_sign a)"
| "pf_mul PInf (Fin b) = inf_of_sign b"
| "pf_mul NInf (Fin b) = pf_neg (inf_of_sign b)"
| "pf_mul PInf PInf = PInf"
| "pf_mul PInf NInf = NInf"
| "pf_mul NInf PInf = NInf"
| "pf_mul NInf NInf = PInf"
| "pf_mul NaN y = NaN"
| "pf_mul x NaN = NaN"

text \<open>
  True division raises \<open>ZeroDivisionError\<close> when the divisor is zero, whatever the
  dividend. Otherwise the quotient is \<open>pf_quotient\<close>, which is consulted for a
  divisor other than zero only: a finite value divided by an infinity is zero, an
  infinity divided by a finite value takes the sign of the divisor into account, and
  \<open>inf / inf\<close> is \<open>nan\<close>.
\<close>

fun pf_quotient :: "pyfloat \<Rightarrow> pyfloat \<Rightarrow> pyfloat" where
  "pf_quotient (Fin a) (Fin b) = Fin (a / b)"
| "pf_quotient PInf (Fin b) = (if 0 \<le> b then PInf else NInf)"
| "pf_quotient NInf (Fin b) = (if 0 \<le> b then NInf else PInf)"
| "pf_quotient (Fin a) PInf = Fin 0"
| "pf_quotient (Fin a) NInf = Fin 0"
| "pf_quotient PInf PInf = NaN"
| "pf_quotient PInf NInf = NaN"
| "pf_quotient NInf PInf = NaN"
| "pf_quotient NInf NInf = NaN"
| "pf_quotient NaN y = NaN"
| "pf_quotient x NaN = NaN"

definition pf_truediv :: "pyfloat \<Rightarrow> pyfloat \<Rightarrow> py_error + pyfloat" where
  "pf_truediv x y = (if pf_eq y (Fin 0) then Inl ZeroDivisionError else Inr (pf_quotient x y))"

text \<open>
  \<open>round(x, 2)\<close>: the nearest multiple of \<open>1/100\<close>, a tie going to the even
  hundredth (Python rounds half to even on the float's exact value). An infinity or
  \<open>nan\<close> is returned unchanged.
\<close>

definition round_half_even :: "rat \<Rightarrow> int" where
  "round_half_even x =
     (let f = \<lfloor>x\<rfloor>; d = x - of_int f
      in if d < 1 / 2 then f
         else if 1 / 2 < d then f + 1
         else if even f then f else f + 1)"

fun round2 :: "pyfloat \<Rightarrow> pyfloat" where
  "round2 (Fin a) = Fin (of_int (round_half_even (a * 100)) / 100)"
| "round2 PInf = PInf"
| "round2 NInf = NInf"
| "round2 NaN = NaN"

subsection \<open>Transactions\<close>

text \<open>
  The dictionary that \<open>parse_transactions\<close> builds for one line: eight fixed keys,
  \<open>Quantity\<close> an \<open>int\<close>, \<open>UnitPrice\<close> a \<open>float\<close>, the other six strings.
\<close>

record transaction =
  TransactionID :: string
  Date :: string
  ProductID :: string
  ProductName :: string
  Quantity :: int
  UnitPrice :: pyfloat
  CustomerID :: string
  Region :: string

text \<open>The expression \<open>t['Quantity'] * t['UnitPrice']\<close>, written inline wherever the source needs it.\<close>

definition amount :: "transaction \<Rightarrow> pyfloat" where
  "amount t = pf_mul (Fin (of_int (Quantity t))) (UnitPrice t)"

text \<open>\<open>s.startswith(c)\<close> for a one-character prefix.\<close>

fun startswith :: "string \<Rightarrow> char \<Rightarrow> bool" where
  "startswith [] c = False"
| "startswith (x # xs) c = (x = c)"

section \<open>file\_handler.validate\_and\_filter\<close>

text \<open>
  The body of the validation loop for one record. The flag starts true and each rule
  can only clear it, in the order of the source; the loop over the required fields
  stops at the first empty one, which leaves the flag as checking all of them does.
\<close>

definition required_fields :: "(transaction \<Rightarrow> string) list" where
  "required_fields = [TransactionID, Date, ProductID, ProductName, CustomerID, Region]"

definition is_valid :: "transaction \<Rightarrow> bool" where
  "is_valid t =
     (let ok1 = (if Quantity t \<le> 0 then False else True);
          ok2 = (if pf_le (UnitPrice t) (Fin 0) then False else ok1);
          ok3 = (if list_ex (\<lambda>field. field t = []) required_fields then False else ok2);
          ok4 = (if \<not> startswith (TransactionID t) CHR ''T'' then False else ok3);
          ok5 = (if \<not> startswith (ProductID t) CHR ''P'' then False else ok4);
          ok6 = (if \<not> startswith (CustomerID t) CHR ''C'' then False else ok5)
      in ok6)"

text \<open>
  The validation loop, with its two accumulators: the list of valid records, appended
  to in input order, and the count of invalid ones.
\<close>

fun validation_loop :: "transaction list \<Rightarrow> transaction list \<Rightarrow> int \<Rightarrow> transaction list \<times> int" where
  "validation_loop [] temp_valid invalid_count = (temp_valid, invalid_count)"
| "validation_loop (t # ts) temp_valid invalid_count =
     (if is_valid t then validation_loop ts (temp_valid @ [t]) invalid_count
      else validation_loop ts temp_valid (invalid_count + 1))"

record filter_summary =
  total_input :: int
  invalid :: int
  filtered_by_region :: int
  filtered_by_amount :: int
  final_count :: int

text \<open>
  The optional arguments default to \<open>None\<close>. \<open>if region:\<close> tests truthiness, so the
  region filter runs for a non-empty string only; the amount bounds are tested with
  \<open>is not None\<close>.
\<close>

definition region_given :: "string option \<Rightarrow> bool" where
  "region_given region = (case region of None \<Rightarrow> False | Some r \<Rightarrow> r \<noteq> [])"

definition region_stage :: "string option \<Rightarrow> transaction list \<Rightarrow> transaction list \<times> int" where
  "region_stage region current =
     (if region_given region then
        (let next_transactions = filter (\<lambda>t. Some (Region t) = region) current
         in (next_transactions, int (length current) - int (length next_transactions)))
      else (current, 0))"

definition amount_passed :: "pyfloat option \<Rightarrow> pyfloat option \<Rightarrow> transaction \<Rightarrow> bool" where
  "amount_passed min_amount max_amount t =
     (let a = amount t;
          passed1 = (case min_amount of
                       None \<Rightarrow> True
                     | Some lo \<Rightarrow> if pf_lt a lo then False else True);
          passed2 = (case max_amount of
                       None \<Rightarrow> passed1
                     | Some hi \<Rightarrow> if pf_gt a hi then False else passed1)
      in passed2)"

definition amount_stage ::
  "pyfloat option \<Rightarrow> pyfloat option \<Rightarrow> transaction list \<Rightarrow> transaction list \<times> int" where
  "amount_stage min_amount max_amount current =
     (if min_amount \<noteq> None \<or> max_amount \<noteq> None then
        (let next_transactions = filter (amount_passed min_amount max_amount) current
         in (next_transactions, int (length current) - int (length next_transactions)))
      else (current, 0))"

text \<open>
  The function returns the surviving records, the invalid count and the summary. The
  two lines it prints before filtering (the regions present and the amount range) do
  not enter the result and are left out.
\<close>

definition validate_and_filter ::
  "transaction list \<Rightarrow> string option \<Rightarrow> pyfloat option \<Rightarrow> pyfloat option
     \<Rightarrow> transaction list \<times> int \<times> filter_summary" where
  "validate_and_filter transactions region min_amount max_amount =
     (let (temp_valid, invalid_count) = validation_loop transactions [] 0;
          (after_region, filtered_by_region_count) = region_stage region temp_valid;
          (filtered, filtered_by_amount_count) = amount_stage min_amount max_amount after_region
      in (filtered, invalid_count,
          \<lparr> total_input = int (length transactions),
            invalid = invalid_count,
            filtered_by_region = filtered_by_region_count,
            filtered_by_amount = filtered_by_amount_count,
            final_count = int (length filtered) \<rparr>))"

section \<open>file\_handler.parse\_transactions\<close>

subsection \<open>String methods\<close>

text \<open>
  A Python string is a list of characters; the model covers the code points up to
  U+00FF. \<open>str.strip()\<close> removes these whitespace characters from both ends: tab to
  carriage return, the four separators U+001C to U+001F, the space, U+0085 and U+00A0.
\<close>

definition is_space :: "char \<Rightarrow> bool" where
  "is_space c = ((of_char c :: nat) \<in> {9, 10, 11, 12, 13, 28, 29, 30, 31, 32, 133, 160})"

definition strip :: "string \<Rightarrow> string" where
  "strip s = rev (dropWhile is_space (rev (dropWhile is_space s)))"

text \<open>\<open>s.replace(c, r)\<close> for a one-character \<open>c\<close>: every occurrence is replaced.\<close>

definition replace_char :: "char \<Rightarrow> string \<Rightarrow> string \<Rightarrow> string" where
  "replace_char c r s = concat (map (\<lambda>x. if x = c then r else [x]) s)"

text \<open>
  \<open>s.split(c)\<close> with a separator: one more field than there are separators; the empty
  string gives one empty field.
\<close>

fun split_on :: "char \<Rightarrow> string \<Rightarrow> string list" where
  "split_on c [] = [[]]"
| "split_on c (x # xs) =
     (if x = c then [] # split_on c xs
      else (case split_on c xs of
              [] \<Rightarrow> [[x]]
            | first # others \<Rightarrow> (x # first) # others))"

subsection \<open>The loop body\<close>

text \<open>
  The built-ins \<open>int()\<close> and \<open>float()\<close> are parameters of the model: each takes a text
  to a value, or to \<open>None\<close> where Python raises \<open>ValueError\<close>. Everything proved about
  the parser holds for every such pair, so for Python's own.

  One pass of the loop body: \<open>None\<close> is a \<open>continue\<close> (the line adds nothing to
  \<open>transactions\<close>), \<open>Some t\<close> is the dictionary appended.
\<close>

definition parse_line ::
  "(string \<Rightarrow> int option) \<Rightarrow> (string \<Rightarrow> pyfloat option) \<Rightarrow> string \<Rightarrow> transaction option" where
  "parse_line to_int to_float line =
     (let fields = split_on CHR ''|'' line
      in if length fields \<noteq> 8 then None
         else
           (let t_id = fields ! 0; date = fields ! 1; p_id = fields ! 2; p_name = fields ! 3;
                qty_str = fields ! 4; price_str = fields ! 5; c_id = fields ! 6;
                region = fields ! 7;
                clean_p_name = replace_char CHR '','' '' '' p_name
            in case to_int (replace_char CHR '','' [] qty_str) of
                 None \<Rightarrow> None
               | Some clean_qty \<Rightarrow>
                   (case to_float (replace_char CHR '','' [] price_str) of
                      None \<Rightarrow> None
                    | Some clean_price \<Rightarrow>
                        Some \<lparr>TransactionID = strip t_id, Date = strip date,
                              ProductID = strip p_id, ProductName = strip clean_p_name,
                              Quantity = clean_qty, UnitPrice = clean_price,
                              CustomerID = strip c_id, Region = strip region\<rparr>)))"

fun parse_loop ::
  "(string \<Rightarrow> int option) \<Rightarrow> (string \<Rightarrow> pyfloat option) \<Rightarrow> string list
     \<Rightarrow> transaction list \<Rightarrow> transaction list" where
  "parse_loop to_int to_float [] transactions = transactions"
| "parse_loop to_int to_float (line # raw_lines) transactions =
     (case parse_line to_int to_float line of
        None \<Rightarrow> parse_loop to_int to_float raw_lines transactions
      | Some transaction \<Rightarrow> parse_loop to_int to_float raw_lines (transactions @ [transaction]))"

definition parse_transactions ::
  "(string \<Rightarrow> int option) \<Rightarrow> (string \<Rightarrow> pyfloat option) \<Rightarrow> string list \<Rightarrow> transaction list" where
  "parse_transactions to_int to_float raw_lines = parse_loop to_int to_float raw_lines []"

text \<open>
  The specification's two conditions on a raw line, for comparison with \<open>parse_line\<close>:
  exactly eight fields, and a quantity and a unit price that convert once their commas
  are removed.
\<close>

definition line_converts ::
  "(string \<Rightarrow> int option) \<Rightarrow> (string \<Rightarrow> pyfloat option) \<Rightarrow> string \<Rightarrow> bool" where
  "line_converts to_int to_float line =
     (length (split_on CHR ''|'' line) = 8
      \<and> to_int (replace_char CHR '','' [] (split_on CHR ''|'' line ! 4)) \<noteq> None
      \<and> to_float (replace_char CHR '','' [] (split_on CHR ''|'' line ! 5)) \<noteq> None)"

subsection \<open>Converters for decimal texts\<close>

text \<open>
  Two converters to run the parser on sample lines. \<open>dec_int\<close> accepts an ASCII text
  of decimal digits, with single underscores between digits, an optional sign in
  front and whitespace around; \<open>dec_float\<close> accepts digits with an optional decimal
  point, and the words \<open>inf\<close>, \<open>infinity\<close> and \<open>nan\<close> in any case, again with an
  optional sign and whitespace around. On a text they accept they give the value that
  \<open>int()\<close> and \<open>float()\<close> give (the float as its exact decimal value). They reject
  every other text, among them some that Python accepts: an exponent, underscores in
  a float, digits outside ASCII.
\<close>

definition is_digit :: "char \<Rightarrow> bool" where
  "is_digit c = (48 \<le> (of_char c :: nat) \<and> (of_char c :: nat) \<le> 57)"

definition digit_value :: "char \<Rightarrow> int" where
  "digit_value c = int (of_char c) - 48"

definition digits_value :: "string \<Rightarrow> int" where
  "digits_value ds = foldl (\<lambda>n c. 10 * n + digit_value c) 0 ds"

fun grouped_digits :: "string \<Rightarrow> bool" where
  "grouped_digits [] = False"
| "grouped_digits [c] = is_digit c"
| "grouped_digits (c # d # r) =
     (is_digit c \<and> (if d = CHR ''_'' then grouped_digits r else grouped_digits (d # r)))"

definition split_sign :: "string \<Rightarrow> bool \<times> string" where
  "split_sign s =
     (case s of
        [] \<Rightarrow> (False, [])
      | c # r \<Rightarrow> if c = CHR ''-'' then (True, r) else if c = CHR ''+'' then (False, r)
                 else (False, s))"

definition dec_int :: "string \<Rightarrow> int option" where
  "dec_int s =
     (let (negative, body) = split_sign (strip s)
      in if grouped_digits body
         then Some ((if negative then - 1 else 1) * digits_value (filter (\<lambda>c. c \<noteq> CHR ''_'') body))
         else None)"

definition lower :: "string \<Rightarrow> string" where
  "lower s =
     map (\<lambda>c. if 65 \<le> (of_char c :: nat) \<and> (of_char c :: nat) \<le> 90
               then char_of ((of_char c :: nat) + 32) else c) s"

definition dec_float :: "string \<Rightarrow> pyfloat option" where
  "dec_float s =
     (let (negative, body) = split_sign (strip s);
          word = lower body;
          int_part = takeWhile (\<lambda>c. c \<noteq> CHR ''.'') body;
          frac_part = drop (length int_part + 1) body
      in if word = ''nan'' then Some NaN
         else if word = ''inf'' \<or> word = ''infinity'' then Some (if negative then NInf else PInf)
         else if list_all is_digit int_part \<and> list_all is_digit frac_part
                 \<and> (int_part \<noteq> [] \<or> frac_part \<noteq> [])
         then Some (Fin ((if negative then - 1 else 1)
                         * of_int (digits_value (int_part @ frac_part))
                         / 10 ^ length frac_part))
         else None)"

section \<open>The enrichment step of main\<close>

text \<open>
  \<open>create_product_mapping\<close> keys the API's products by their \<open>id\<close>, an integer or a
  string, and stores four fields for each (a missing field is \<open>None\<close>). Such a value
  is a dictionary with four keys, so it is always truthy in \<open>if matched_info:\<close>.
\<close>

datatype map_key = IntKey int | StrKey string

record product_info =
  title :: "string option"
  category :: "string option"
  brand :: "string option"
  rating :: "pyfloat option"

type_synonym product_map = "map_key \<Rightarrow> product_info option"

text \<open>
  The enriched copy of a transaction: the transaction's own keys, the four keys that
  \<open>update(matched_info)\<close> adds when a product matched, and the flag.
\<close>

record enriched_transaction =
  base :: transaction
  api_info :: "product_info option"
  enriched :: bool

definition enrich :: "(string \<Rightarrow> int option) \<Rightarrow> product_map \<Rightarrow> transaction \<Rightarrow> enriched_transaction" where
  "enrich to_int product_map t =
     (let pid_clean = replace_char CHR ''P'' [] (ProductID t);
          matched_info =
            (case to_int pid_clean of
               Some pid_int \<Rightarrow> product_map (IntKey pid_int)
             | None \<Rightarrow> product_map (StrKey (ProductID t)))
      in case matched_info of
           Some info \<Rightarrow> \<lparr>base = t, api_info = Some info, enriched = True\<rparr>
         | None \<Rightarrow> \<lparr>base = t, api_info = None, enriched = False\<rparr>)"

definition enrich_transactions ::
  "(string \<Rightarrow> int option) \<Rightarrow> product_map \<Rightarrow> transaction list \<Rightarrow> enriched_transaction list" where
  "enrich_transactions to_int product_map valid_transactions =
     map (enrich to_int product_map) valid_transactions"

subsection \<open>The lookup as the specification words it\<close>

text \<open>
  The specification's lookup strategy, for comparison with \<open>enrich\<close>: strip a single
  leading \<open>P\<close>, convert to an integer and look that up; when the conversion fails, look
  up the original product id.
\<close>

definition strip_leading_P :: "string \<Rightarrow> string" where
  "strip_leading_P s = (case s of [] \<Rightarrow> [] | c # r \<Rightarrow> if c = CHR ''P'' then r else s)"

definition enrich_as_specified ::
  "(string \<Rightarrow> int option) \<Rightarrow> product_map \<Rightarrow> transaction \<Rightarrow> enriched_transaction" where
  "enrich_as_specified to_int product_map t =
     (let matched_info =
            (case to_int (strip_leading_P (ProductID t)) of
               Some pid_int \<Rightarrow> product_map (IntKey pid_int)
             | None \<Rightarrow> product_map (StrKey (ProductID t)))
      in case matched_info of
           Some info \<Rightarrow> \<lparr>base = t, api_info = Some info, enriched = True\<rparr>
         | None \<Rightarrow> \<lparr>base = t, api_info = None, enriched = False\<rparr>)"

section \<open>data\_processor\<close>

subsection \<open>Dictionaries and sorting\<close>

text \<open>
  A Python dictionary keeps its keys in insertion order, and the aggregation
  functions rely on it, so a dictionary is a list of key-value pairs with distinct
  keys. \<open>upsert k init f d\<close> is the pattern
  \<open>if k not in d: d[k] = init\<close> followed by an in-place update \<open>f\<close> of \<open>d[k]\<close>:
  a new key goes to the end, an existing key keeps its place.
\<close>

fun upsert :: "'k \<Rightarrow> 'v \<Rightarrow> ('v \<Rightarrow> 'v) \<Rightarrow> ('k \<times> 'v) list \<Rightarrow> ('k \<times> 'v) list" where
  "upsert k init f [] = [(k, f init)]"
| "upsert k init f ((k', v) # d) =
     (if k' = k then (k', f v) # d else (k', v) # upsert k init f d)"

text \<open>
  The grouping loop that the aggregation functions share: one pass over the
  transactions, each updating the entry of its key.
\<close>

definition accumulate :: "('t \<Rightarrow> 'k) \<Rightarrow> 'v \<Rightarrow> ('t \<Rightarrow> 'v \<Rightarrow> 'v) \<Rightarrow> 't list \<Rightarrow> ('k \<times> 'v) list" where
  "accumulate key init step ts = foldl (\<lambda>d t. upsert (key t) init (step t) d) [] ts"

text \<open>The keys of a sequence in the order in which they are first encountered.\<close>

definition first_seen :: "'k list \<Rightarrow> 'k list" where
  "first_seen ks = rev (remdups (rev ks))"

text \<open>A loop that builds a list and stops at the first exception.\<close>

fun map_result :: "('a \<Rightarrow> py_error + 'b) \<Rightarrow> 'a list \<Rightarrow> py_error + 'b list" where
  "map_result f [] = Inr []"
| "map_result f (x # xs) =
     (case f x of
        Inl e \<Rightarrow> Inl e
      | Inr y \<Rightarrow> (case map_result f xs of Inl e \<Rightarrow> Inl e | Inr ys \<Rightarrow> Inr (y # ys)))"

text \<open>
  \<open>sorted(items, key=k, reverse=True)\<close> for float keys. Python's sort is stable and
  \<open>reverse=True\<close> keeps the original order of items with equal keys: the list is
  reversed, sorted ascending, and reversed back. \<open>pf_rank\<close> places the floats other
  than \<open>nan\<close> in their linear order. For keys that include \<open>nan\<close> the result of
  Python's sort depends on which comparisons its merge strategy makes and is not
  reproduced here; every statement below about the order of a result is about keys
  without \<open>nan\<close>.
\<close>

fun pf_rank :: "pyfloat \<Rightarrow> int \<times> rat" where
  "pf_rank NInf = (- 1, 0)"
| "pf_rank (Fin a) = (0, a)"
| "pf_rank PInf = (1, 0)"
| "pf_rank NaN = (2, 0)"

definition sorted_reverse :: "('a \<Rightarrow> pyfloat) \<Rightarrow> 'a list \<Rightarrow> 'a list" where
  "sorted_reverse k items = rev (sort_key (\<lambda>item. pf_rank (k item)) (rev items))"

subsection \<open>calculate\_total\_revenue\<close>

text \<open>\<open>sum\<close> starts from the integer 0 and adds the amounts from left to right.\<close>

definition calculate_total_revenue :: "transaction list \<Rightarrow> pyfloat" where
  "calculate_total_revenue transactions = foldl pf_add (Fin 0) (map amount transactions)"

subsection \<open>region\_wise\_sales\<close>

record region_stats =
  total_sales :: pyfloat
  transaction_count :: int
  percentage :: pyfloat

text \<open>
  The aggregation loop: the value stored for a region is the pair of its
  \<open>total_sales\<close> (from \<open>0.0\<close>) and its \<open>transaction_count\<close> (from \<open>0\<close>).
\<close>

definition aggregate_regions :: "transaction list \<Rightarrow> (string \<times> pyfloat \<times> int) list" where
  "aggregate_regions transactions =
     accumulate Region (Fin 0, 0)
       (\<lambda>t (sales, n). (pf_add sales (amount t), n + 1)) transactions"

text \<open>The body of the second loop: the percentage is taken from the unrounded total sales, which are rounded afterwards.\<close>

definition finalize_region ::
  "pyfloat \<Rightarrow> string \<times> pyfloat \<times> int \<Rightarrow> py_error + (string \<times> region_stats)" where
  "finalize_region total_revenue entry =
     (case entry of
        (region, sales, n) \<Rightarrow>
          (case pf_truediv sales total_revenue of
             Inl e \<Rightarrow> Inl e
           | Inr share \<Rightarrow>
               Inr (region,
                    \<lparr>total_sales = round2 sales,
                     transaction_count = n,
                     percentage = round2 (pf_mul share (Fin 100))\<rparr>)))"

definition region_wise_sales :: "transaction list \<Rightarrow> py_error + (string \<times> region_stats) list" where
  "region_wise_sales transactions =
     (let total_revenue = calculate_total_revenue transactions
      in if pf_eq total_revenue (Fin 0) then Inr []
         else
           (case map_result (finalize_region total_revenue) (aggregate_regions transactions) of
              Inl e \<Rightarrow> Inl e
            | Inr final_stats \<Rightarrow>
                Inr (sorted_reverse (\<lambda>item. total_sales (snd item)) final_stats)))"

text \<open>
  The entry of a region as the specification words it, for comparison with
  \<open>region_wise_sales\<close>: the region's total rounded to 2 decimals, the number of its
  transactions, and the unrounded region total divided by the unrounded total
  revenue, times 100, rounded to 2 decimals.
\<close>

definition region_entry :: "transaction list \<Rightarrow> string \<Rightarrow> string \<times> region_stats" where
  "region_entry ts r =
     (let own = filter (\<lambda>t. Region t = r) ts;
          region_total = calculate_total_revenue own
      in (r, \<lparr>total_sales = round2 region_total,
              transaction_count = int (length own),
              percentage =
                round2 (pf_mul (pf_quotient region_total (calculate_total_revenue ts)) (Fin 100))\<rparr>))"

text \<open>The sum of the percentages of a result, and the test that a sum is within a tolerance of 100.\<close>

definition percentage_sum :: "(string \<times> region_stats) list \<Rightarrow> pyfloat" where
  "percentage_sum result = foldl pf_add (Fin 0) (map (\<lambda>item. percentage (snd item)) result)"

definition within_of_100 :: "rat \<Rightarrow> pyfloat \<Rightarrow> bool" where
  "within_of_100 tolerance s = (pf_le (Fin (100 - tolerance)) s \<and> pf_le s (Fin (100 + tolerance)))"

subsection \<open>customer\_analysis\<close>

text \<open>
  \<open>products_bought\<close> is \<open>list(products_set)\<close>, whose order Python does not fix; it is
  kept as the set.
\<close>

record customer_stats =
  total_spent :: pyfloat
  purchase_count :: int
  avg_order_value :: pyfloat
  products_bought :: "string set"

definition aggregate_customers ::
  "transaction list \<Rightarrow> (string \<times> pyfloat \<times> int \<times> string set) list" where
  "aggregate_customers transactions =
     accumulate CustomerID (Fin 0, 0, {})
       (\<lambda>t (spent, n, products_set).
          (pf_add spent (amount t), n + 1, insert (ProductName t) products_set))
       transactions"

definition finalize_customer ::
  "string \<times> pyfloat \<times> int \<times> string set \<Rightarrow> py_error + (string \<times> customer_stats)" where
  "finalize_customer entry =
     (case entry of
        (c_id, spent, n, products_set) \<Rightarrow>
          (case (if 0 < n then pf_truediv spent (Fin (of_int n)) else Inr (Fin 0)) of
             Inl e \<Rightarrow> Inl e
           | Inr avg_value \<Rightarrow>
               Inr (c_id,
                    \<lparr>total_spent = round2 spent,
                     purchase_count = n,
                     avg_order_value = round2 avg_value,
                     products_bought = products_set\<rparr>)))"

definition customer_analysis :: "transaction list \<Rightarrow> py_error + (string \<times> customer_stats) list" where
  "customer_analysis transactions =
     (case map_result finalize_customer (aggregate_customers transactions) of
        Inl e \<Rightarrow> Inl e
      | Inr final_stats \<Rightarrow> Inr (sorted_reverse (\<lambda>item. total_spent (snd item)) final_stats))"

subsection \<open>daily\_sales\_trend and find\_peak\_sales\_day\<close>

record daily_stats =
  revenue :: pyfloat
  transaction_count :: int
  unique_customers :: int

definition aggregate_days ::
  "transaction list \<Rightarrow> (string \<times> pyfloat \<times> int \<times> string set) list" where
  "aggregate_days transactions =
     accumulate Date (Fin 0, 0, {})
       (\<lambda>t (rev_sum, n, customers_set).
          (pf_add rev_sum (amount t), n + 1, insert (CustomerID t) customers_set))
       transactions"

definition finalize_day :: "string \<times> pyfloat \<times> int \<times> string set \<Rightarrow> string \<times> daily_stats" where
  "finalize_day entry =
     (case entry of
        (date, rev_sum, n, customers_set) \<Rightarrow>
          (date,
           \<lparr>revenue = round2 rev_sum,
            transaction_count = n,
            unique_customers = int (card customers_set)\<rparr>))"

text \<open>The dates are strings, compared code point by code point; the keys of a dictionary are distinct, so the order of the result is fixed by the dates alone.\<close>

definition daily_sales_trend :: "transaction list \<Rightarrow> (string \<times> daily_stats) list" where
  "daily_sales_trend transactions =
     sort_key fst (map finalize_day (aggregate_days transactions))"

text \<open>
  \<open>max(items, key=k)\<close> on a non-empty sequence: the first item is the candidate, and
  a later item replaces it only when its key is strictly greater.
\<close>

definition max_by_key :: "('a \<Rightarrow> pyfloat) \<Rightarrow> 'a \<Rightarrow> 'a list \<Rightarrow> 'a" where
  "max_by_key k first rest =
     foldl (\<lambda>best item. if pf_gt (k item) (k best) then item else best) first rest"

definition find_peak_sales_day :: "transaction list \<Rightarrow> (string \<times> pyfloat \<times> int) option" where
  "find_peak_sales_day transactions =
     (case daily_sales_trend transactions of
        [] \<Rightarrow> None
      | first # rest \<Rightarrow>
          (let peak_day = max_by_key (\<lambda>item. revenue (snd item)) first rest
           in Some (fst peak_day, revenue (snd peak_day),
                    daily_stats.transaction_count (snd peak_day))))"

section \<open>Sample inputs\<close>

text \<open>Four parsed records used to run the pass: the second has quantity zero.\<close>

definition sample_records :: "transaction list" where
  "sample_records =
    [\<lparr>TransactionID = ''T001'', Date = ''2024-12-01'', ProductID = ''P101'',
       ProductName = ''Mouse Wireless'', Quantity = 10, UnitPrice = Fin 25,
       CustomerID = ''C001'', Region = ''North''\<rparr>,
     \<lparr>TransactionID = ''T002'', Date = ''2024-12-01'', ProductID = ''P102'',
       ProductName = ''Keyboard'', Quantity = 0, UnitPrice = Fin 50,
       CustomerID = ''C002'', Region = ''North''\<rparr>,
     \<lparr>TransactionID = ''T003'', Date = ''2024-12-02'', ProductID = ''P103'',
       ProductName = ''Pen'', Quantity = 2, UnitPrice = Fin (3 / 2),
       CustomerID = ''C003'', Region = ''North''\<rparr>,
     \<lparr>TransactionID = ''T004'', Date = ''2024-12-02'', ProductID = ''P101'',
       ProductName = ''Mouse Wireless'', Quantity = 4, UnitPrice = Fin 25,
       CustomerID = ''C001'', Region = ''South''\<rparr>]"

text \<open>
  A record as \<open>parse_transactions\<close> builds it from the line
  \<open>T900|2024-12-05|P900|Widget|1|nan|C900|North\<close>: \<open>float('nan')\<close> succeeds.
\<close>

definition nan_record :: transaction where
  "nan_record =
     \<lparr>TransactionID = ''T900'', Date = ''2024-12-05'', ProductID = ''P900'',
      ProductName = ''Widget'', Quantity = 1, UnitPrice = NaN,
      CustomerID = ''C900'', Region = ''North''\<rparr>"

text \<open>The two lines of the specification's example, a line with seven fields and a line whose quantity is not a number.\<close>

definition sample_lines :: "string list" where
  "sample_lines =
     [''T001|2024-12-01|P101|Mouse,Wireless|10|25.00|C001|North'',
      ''T002|2024-12-01|P102|Keyboard|5|50.00|C002|North'',
      ''T003|2024-12-02|P103|Pen|2|1.50|C003'',
      ''T004|2024-12-02|P104|Desk|two|1,200.00|C004|South'',
      ''T005|2024-12-03|P105| Monitor |-1|1,200.00|C005|South'']"

text \<open>A mapping with one product, keyed by the integer 12, and three transactions: one whose product id has a second \<open>P\<close>, one whose product is not in the mapping, and one whose product is.\<close>

definition sample_info :: product_info where
  "sample_info = \<lparr>title = Some ''Eyeshadow'', category = Some ''beauty'', brand = None, rating = Some (Fin 4)\<rparr>"

definition sample_product_map :: product_map where
  "sample_product_map = (\<lambda>k. if k = IntKey 12 then Some sample_info else None)"

definition p1p2_record :: transaction where
  "p1p2_record =
     \<lparr>TransactionID = ''T007'', Date = ''2024-12-05'', ProductID = ''P1P2'',
      ProductName = ''Widget'', Quantity = 1, UnitPrice = Fin 10,
      CustomerID = ''C007'', Region = ''North''\<rparr>"

definition p404_record :: transaction where
  "p404_record =
     \<lparr>TransactionID = ''T009'', Date = ''2024-12-05'', ProductID = ''P404'',
      ProductName = ''Widget'', Quantity = 1, UnitPrice = Fin 10,
      CustomerID = ''C009'', Region = ''North''\<rparr>"

definition p12_record :: transaction where
  "p12_record =
     \<lparr>TransactionID = ''T008'', Date = ''2024-12-05'', ProductID = ''P12'',
      ProductName = ''Widget'', Quantity = 1, UnitPrice = Fin 10,
      CustomerID = ''C008'', Region = ''North''\<rparr>"

text \<open>Four transactions on three days, given out of date order; the first two days in date order have the same revenue.\<close>

definition tie_records :: "transaction list" where
  "tie_records =
    [\<lparr>TransactionID = ''T001'', Date = ''2024-12-03'', ProductID = ''P101'',
       ProductName = ''Mouse'', Quantity = 4, UnitPrice = Fin 25,
       CustomerID = ''C001'', Region = ''North''\<rparr>,
     \<lparr>TransactionID = ''T002'', Date = ''2024-12-02'', ProductID = ''P102'',
       ProductName = ''Keyboard'', Quantity = 3, UnitPrice = Fin 50,
       CustomerID = ''C002'', Region = ''South''\<rparr>,
     \<lparr>TransactionID = ''T003'', Date = ''2024-12-01'', ProductID = ''P103'',
       ProductName = ''Monitor'', Quantity = 1, UnitPrice = Fin 250,
       CustomerID = ''C003'', Region = ''South''\<rparr>,
     \<lparr>TransactionID = ''T004'', Date = ''2024-12-02'', ProductID = ''P101'',
       ProductName = ''Mouse'', Quantity = 4, UnitPrice = Fin 25,
       CustomerID = ''C002'', Region = ''East''\<rparr>]"

text \<open>
  Sixty transactions of one unit at unit price \<open>1.0\<close>, each in a region of its own
  (\<open>R00\<close> to \<open>R59\<close>).
\<close>

definition sixty_regions :: "transaction list" where
  "sixty_regions =
     map (\<lambda>i. \<lparr>TransactionID = ''T001'', Date = ''2024-12-01'', ProductID = ''P101'',
                ProductName = ''Pen'', Quantity = 1, UnitPrice = Fin 1, CustomerID = ''C001'',
                Region = [CHR ''R'', char_of (48 + i div 10), char_of (48 + i mod 10)]\<rparr>)
       [0..<60]"

text \<open>
  Two records that pass validation, on two days: the unit price of the first is the
  float that \<open>float('nan')\<close> gives, as in the line
  \<open>T901|2024-12-01|P901|Widget|1|nan|C901|North\<close>.
\<close>

definition nan_day_records :: "transaction list" where
  "nan_day_records =
    [\<lparr>TransactionID = ''T901'', Date = ''2024-12-01'', ProductID = ''P901'',
       ProductName = ''Widget'', Quantity = 1, UnitPrice = NaN,
       CustomerID = ''C901'', Region = ''North''\<rparr>,
     \<lparr>TransactionID = ''T902'', Date = ''2024-12-02'', ProductID = ''P902'',
       ProductName = ''Gadget'', Quantity = 1, UnitPrice = Fin 100,
       CustomerID = ''C902'', Region = ''North''\<rparr>]"

section \<open>Properties of the float comparisons\<close>

lemma pf_lt_rank: "pf_lt x y = (x \<noteq> NaN \<and> y \<noteq> NaN \<and> pf_rank x < pf_rank y)"
  by (cases x; cases y) simp_all

lemma pf_le_rank: "pf_le x y = (x \<noteq> NaN \<and> y \<noteq> NaN \<and> pf_rank x \<le> pf_rank y)"
  by (cases x; cases y) (auto simp: pf_le_def)

lemma pf_rank_inject: "(pf_rank x = pf_rank y) = (x = y)"
  by (cases x; cases y) simp_all

lemma pf_le_fin: "pf_le (Fin a) (Fin b) = (a \<le> b)"
  by (auto simp: pf_le_def)

section \<open>Properties of the validation and filter pass\<close>

lemma validation_loop_acc:
  "validation_loop ts acc n =
     (acc @ filter is_valid ts, n + int (length (filter (\<lambda>t. \<not> is_valid t) ts)))"
  by (induction ts arbitrary: acc n) simp_all

lemma validation_loop_eq:
  "validation_loop ts [] 0 =
     (filter is_valid ts, int (length (filter (\<lambda>t. \<not> is_valid t) ts)))"
  by (simp add: validation_loop_acc)

lemma length_filter_split:
  "int (length xs) = int (length (filter P xs)) + int (length (filter (\<lambda>x. \<not> P x) xs))"
  by (induction xs) simp_all

lemma region_stage_removed:
  "region_given region \<Longrightarrow>
     snd (region_stage region xs) = int (length (filter (\<lambda>t. Some (Region t) \<noteq> region) xs))"
  using length_filter_split [of xs "\<lambda>t. Some (Region t) = region"]
  by (simp add: region_stage_def Let_def)

lemma amount_stage_removed:
  "lo \<noteq> None \<or> hi \<noteq> None \<Longrightarrow>
     snd (amount_stage lo hi xs) = int (length (filter (\<lambda>t. \<not> amount_passed lo hi t) xs))"
  using length_filter_split [of xs "amount_passed lo hi"]
  by (simp add: amount_stage_def Let_def)

lemma validate_and_filter_unfold:
  "validate_and_filter ts region lo hi =
     (fst (amount_stage lo hi (fst (region_stage region (filter is_valid ts)))),
      int (length (filter (\<lambda>t. \<not> is_valid t) ts)),
      \<lparr> total_input = int (length ts),
        invalid = int (length (filter (\<lambda>t. \<not> is_valid t) ts)),
        filtered_by_region = snd (region_stage region (filter is_valid ts)),
        filtered_by_amount = snd (amount_stage lo hi (fst (region_stage region (filter is_valid ts)))),
        final_count =
          int (length (fst (amount_stage lo hi (fst (region_stage region (filter is_valid ts)))))) \<rparr>)"
  by (simp add: validate_and_filter_def validation_loop_eq split: prod.splits)

lemmas run_validate_and_filter =
  validate_and_filter_def is_valid_def required_fields_def pf_le_def pf_gt_def pf_ge_def
  region_stage_def region_given_def amount_stage_def amount_passed_def amount_def

text \<open>
  C1. Count conservation. For every list of parsed records and every choice of the
  optional arguments, the summary counts the whole input, the invalid count is the
  number of records failing validation, the input splits into invalid and valid
  records, and the valid records split into the survivors and the two filter counts.
  Each filter count is the number of records removed from the list entering that
  stage (the amount filter counts removals from the region filter's output), and is
  0 when the stage does not run.
\<close>

theorem count_conservation:
  "case validate_and_filter ts region lo hi of
     (kept, invalid_count, s) \<Rightarrow>
       (let valid = filter is_valid ts;
            entering_amount =
              (if region_given region then filter (\<lambda>t. Some (Region t) = region) valid
               else valid)
        in total_input s = int (length ts)
         \<and> invalid s = invalid_count
         \<and> invalid_count = int (length (filter (\<lambda>t. \<not> is_valid t) ts))
         \<and> total_input s = invalid s + int (length valid)
         \<and> int (length valid) = final_count s + filtered_by_region s + filtered_by_amount s
         \<and> filtered_by_region s =
               (if region_given region
                then int (length (filter (\<lambda>t. Some (Region t) \<noteq> region) valid)) else 0)
         \<and> filtered_by_amount s =
               (if lo \<noteq> None \<or> hi \<noteq> None
                then int (length (filter (\<lambda>t. \<not> amount_passed lo hi t) entering_amount))
                else 0)
         \<and> final_count s = int (length kept))"
proof -
  let ?valid = "filter is_valid ts"
  let ?r = "region_stage region ?valid"
  let ?a = "amount_stage lo hi (fst ?r)"
  have split_input: "int (length ts) =
      int (length (filter (\<lambda>t. \<not> is_valid t) ts)) + int (length ?valid)"
    using length_filter_split [of ts is_valid] by simp
  have fst_r: "fst ?r =
      (if region_given region then filter (\<lambda>t. Some (Region t) = region) ?valid else ?valid)"
    by (simp add: region_stage_def Let_def)
  have snd_r: "snd ?r =
      (if region_given region
       then int (length (filter (\<lambda>t. Some (Region t) \<noteq> region) ?valid)) else 0)"
    by (simp add: region_stage_removed) (simp add: region_stage_def Let_def)
  have snd_a: "snd ?a =
      (if lo \<noteq> None \<or> hi \<noteq> None
       then int (length (filter (\<lambda>t. \<not> amount_passed lo hi t) (fst ?r))) else 0)"
  proof (cases "lo \<noteq> None \<or> hi \<noteq> None")
    case True
    then show ?thesis using amount_stage_removed [of lo hi "fst ?r"] by simp
  next
    case False
    then show ?thesis by (simp add: amount_stage_def Let_def)
  qed
  have len_r: "int (length ?valid) = int (length (fst ?r)) + snd ?r"
    by (simp add: region_stage_def Let_def)
  have len_a: "int (length (fst ?r)) = int (length (fst ?a)) + snd ?a"
    by (simp add: amount_stage_def Let_def)
  show ?thesis
    unfolding validate_and_filter_unfold
    using split_input fst_r snd_r snd_a len_r len_a
    by (simp add: Let_def)
qed

theorem count_conservation_witness:
  "validate_and_filter sample_records (Some ''North'') (Some (Fin 100)) None =
     ([sample_records ! 0], 1,
      \<lparr>total_input = 4, invalid = 1, filtered_by_region = 1, filtered_by_amount = 1,
         final_count = 1\<rparr>)
   \<and> length (filter is_valid sample_records) = 3"
  using count_conservation [of sample_records "Some ''North''" "Some (Fin 100)" None]
  by (simp add: run_validate_and_filter sample_records_def)

text \<open>
  C9. An empty region string is falsy, so passing it is the same as passing no region:
  the whole result is equal, the region stage hands its input on unchanged, and the
  summary's region count is 0.
\<close>

theorem empty_region_is_no_region:
  "validate_and_filter ts (Some []) lo hi = validate_and_filter ts None lo hi
   \<and> region_stage (Some []) (filter is_valid ts) = (filter is_valid ts, 0)
   \<and> filtered_by_region (snd (snd (validate_and_filter ts (Some []) lo hi))) = 0"
proof -
  have falsy: "\<not> region_given (Some [])" and absent: "\<not> region_given None"
    by (simp_all add: region_given_def)
  have skipped: "region_stage (Some []) current = (current, 0)"
    and same: "region_stage (Some []) current = region_stage None current" for current
    using falsy absent by (simp_all add: region_stage_def)
  have equal: "validate_and_filter ts (Some []) lo hi = validate_and_filter ts None lo hi"
    unfolding validate_and_filter_unfold same ..
  have count: "filtered_by_region (snd (snd (validate_and_filter ts (Some []) lo hi))) = 0"
    unfolding validate_and_filter_unfold skipped by simp
  from equal skipped count show ?thesis by blast
qed

theorem empty_region_is_no_region_witness:
  "validate_and_filter sample_records (Some []) None None =
     ([sample_records ! 0, sample_records ! 2, sample_records ! 3], 1,
      \<lparr>total_input = 4, invalid = 1, filtered_by_region = 0, filtered_by_amount = 0,
         final_count = 3\<rparr>)
   \<and> validate_and_filter sample_records None None None =
     ([sample_records ! 0, sample_records ! 2, sample_records ! 3], 1,
      \<lparr>total_input = 4, invalid = 1, filtered_by_region = 0, filtered_by_amount = 0,
         final_count = 3\<rparr>)"
  using empty_region_is_no_region [of sample_records None None]
  by (simp add: run_validate_and_filter sample_records_def)

subsection \<open>The amount filter\<close>

text \<open>
  What the combined pass keeps: a record stays unless its amount is below the lower
  bound or above the upper bound. Both tests are false for a \<open>nan\<close> amount.
\<close>

lemma amount_passed_iff:
  "amount_passed lo hi t =
     ((case lo of None \<Rightarrow> True | Some l \<Rightarrow> \<not> pf_lt (amount t) l)
      \<and> (case hi of None \<Rightarrow> True | Some h \<Rightarrow> \<not> pf_lt h (amount t)))"
  by (auto simp: amount_passed_def pf_gt_def Let_def split: option.splits)

lemma pf_lt_iff_not_pf_le:
  "x \<noteq> NaN \<Longrightarrow> y \<noteq> NaN \<Longrightarrow> pf_lt x y = (\<not> pf_le y x)"
  by (cases x; cases y) (auto simp: pf_le_def)

lemma amount_passed_in_range:
  "amount t \<noteq> NaN \<Longrightarrow> lo \<noteq> Some NaN \<Longrightarrow> hi \<noteq> Some NaN \<Longrightarrow>
     amount_passed lo hi t =
       ((case lo of None \<Rightarrow> True | Some l \<Rightarrow> pf_le l (amount t))
        \<and> (case hi of None \<Rightarrow> True | Some h \<Rightarrow> pf_le (amount t) h))"
  by (auto simp: amount_passed_iff pf_lt_iff_not_pf_le split: option.splits)

lemma amount_filter_after_region_filter:
  "lo \<noteq> None \<or> hi \<noteq> None \<Longrightarrow>
     fst (validate_and_filter ts region lo hi) =
       filter (amount_passed lo hi) (fst (region_stage region (filter is_valid ts)))"
  by (auto simp: validate_and_filter_unfold amount_stage_def Let_def)

text \<open>
  C5. The amount filter is to keep exactly the records whose amount lies within
  \<open>[min, max]\<close>, after the region filter. On the record \<open>nan_record\<close>, which the
  parser builds from a line whose unit price is the text \<open>nan\<close>, the code does not:
  the rule \<open>UnitPrice <= 0\<close> is false for \<open>nan\<close>, so the record is valid; its amount
  is \<open>nan\<close>; \<open>amount < min_amount\<close> is false, so with \<open>min_amount=5000\<close> the record
  is kept and nothing is counted as removed, although \<open>amount >= 5000\<close> is false.
  For amounts and bounds other than \<open>nan\<close> the filter keeps exactly the records with
  \<open>min <= amount <= max\<close> (\<open>amount_passed_in_range\<close>), in one pass over the output
  of the region filter (\<open>amount_filter_after_region_filter\<close>).
\<close>

theorem amount_filter_keeps_nan_amount:
  "parse_transactions dec_int dec_float [''T900|2024-12-05|P900|Widget|1|nan|C900|North''] =
     [nan_record]
   \<and> is_valid nan_record
   \<and> validate_and_filter [nan_record] None (Some (Fin 5000)) None =
       ([nan_record], 0,
        \<lparr>total_input = 1, invalid = 0, filtered_by_region = 0, filtered_by_amount = 0,
           final_count = 1\<rparr>)
   \<and> amount nan_record = NaN
   \<and> \<not> pf_ge (amount nan_record) (Fin 5000)"
proof -
  have parsed:
    "parse_transactions dec_int dec_float [''T900|2024-12-05|P900|Widget|1|nan|C900|North''] =
       [nan_record]"
    by code_simp
  have run: "is_valid nan_record
     \<and> validate_and_filter [nan_record] None (Some (Fin 5000)) None =
         ([nan_record], 0,
          \<lparr>total_input = 1, invalid = 0, filtered_by_region = 0, filtered_by_amount = 0,
             final_count = 1\<rparr>)
     \<and> amount nan_record = NaN
     \<and> \<not> pf_ge (amount nan_record) (Fin 5000)"
    by (simp add: run_validate_and_filter nan_record_def)
  from parsed run show ?thesis by blast
qed

section \<open>Properties of the parser\<close>

lemma parse_loop_acc:
  "parse_loop to_int to_float raw_lines acc =
     acc @ List.map_filter (parse_line to_int to_float) raw_lines"
  by (induction raw_lines arbitrary: acc) (simp_all split: option.splits)

lemma parse_transactions_map_filter:
  "parse_transactions to_int to_float raw_lines =
     List.map_filter (parse_line to_int to_float) raw_lines"
  by (simp add: parse_transactions_def parse_loop_acc)

lemma parse_line_Some_iff:
  "(parse_line to_int to_float line \<noteq> None) = line_converts to_int to_float line"
  by (auto simp: parse_line_def line_converts_def Let_def split: option.splits)

lemma length_map_filter:
  "length (List.map_filter f xs) = length (filter (\<lambda>x. f x \<noteq> None) xs)"
  by (simp add: List.map_filter_def)

lemma parse_transactions_append:
  "parse_transactions to_int to_float (xs @ ys) =
     parse_transactions to_int to_float xs @ parse_transactions to_int to_float ys"
  by (simp add: parse_transactions_map_filter List.map_filter_def)

lemmas run_parser =
  parse_transactions_def parse_line_def Let_def replace_char_def strip_def
  is_space_def dec_int_def dec_float_def split_sign_def is_digit_def digit_value_def
  digits_value_def lower_def

text \<open>
  C6. A record is emitted for a raw line exactly when the line has eight fields and
  its quantity and unit price convert after the commas are removed. The output is the
  list of the records of those lines, in order: a line failing either condition
  leaves nothing behind, neither a record nor a count. The validator counts something
  else: its \<open>total_input\<close> is the number of lines that parsed, and its \<open>invalid\<close>
  count is the number of parsed records that fail a validation rule.
\<close>

theorem unparseable_lines_are_dropped:
  "(parse_line to_int to_float line \<noteq> None) = line_converts to_int to_float line
   \<and> parse_transactions to_int to_float raw_lines =
       map (\<lambda>l. the (parse_line to_int to_float l))
         (filter (line_converts to_int to_float) raw_lines)
   \<and> length (parse_transactions to_int to_float raw_lines) =
       length (filter (line_converts to_int to_float) raw_lines)
   \<and> (case validate_and_filter (parse_transactions to_int to_float raw_lines) region lo hi of
         (kept, invalid_count, s) \<Rightarrow>
           total_input s = int (length (filter (line_converts to_int to_float) raw_lines))
           \<and> invalid_count =
               int (length (filter (\<lambda>t. \<not> is_valid t)
                      (parse_transactions to_int to_float raw_lines))))"
proof -
  have emitted: "(parse_line to_int to_float l \<noteq> None) = line_converts to_int to_float l" for l
    by (rule parse_line_Some_iff)
  have same_filter:
    "filter (\<lambda>l. parse_line to_int to_float l \<noteq> None) raw_lines =
       filter (line_converts to_int to_float) raw_lines"
    by (simp only: emitted)
  have out: "parse_transactions to_int to_float raw_lines =
      map (\<lambda>l. the (parse_line to_int to_float l))
        (filter (line_converts to_int to_float) raw_lines)"
    unfolding parse_transactions_map_filter List.map_filter_def same_filter
    by (simp add: comp_def)
  have len: "length (parse_transactions to_int to_float raw_lines) =
      length (filter (line_converts to_int to_float) raw_lines)"
    by (simp add: out)
  show ?thesis
    using emitted [of line] out len
    by (simp add: validate_and_filter_unfold)
qed

theorem unparseable_lines_are_dropped_witness:
  "map TransactionID (parse_transactions dec_int dec_float sample_lines) =
     [''T001'', ''T002'', ''T005'']
   \<and> map (line_converts dec_int dec_float) sample_lines = [True, True, False, False, True]
   \<and> snd (validate_and_filter (parse_transactions dec_int dec_float sample_lines) None None None) =
       (1, \<lparr>total_input = 3, invalid = 1, filtered_by_region = 0, filtered_by_amount = 0,
             final_count = 2\<rparr>)"
  using unparseable_lines_are_dropped [of dec_int dec_float "sample_lines ! 2" sample_lines None None None]
  by (simp add: sample_lines_def line_converts_def run_parser run_validate_and_filter)

subsection \<open>Cleaning a product name\<close>

lemma dropWhile_no_leading:
  "s = [] \<or> \<not> P (hd s) \<Longrightarrow> dropWhile P s = s"
  by (cases s) auto

lemma last_dropWhile_nonempty:
  "dropWhile P xs \<noteq> [] \<Longrightarrow> last (dropWhile P xs) = last xs"
  by (induction xs) (auto split: if_splits)

lemma strip_clean:
  assumes "s = [] \<or> (\<not> is_space (hd s) \<and> \<not> is_space (last s))"
  shows "strip s = s"
proof -
  have front: "dropWhile is_space s = s"
    using assms by (intro dropWhile_no_leading) auto
  have rear: "dropWhile is_space (rev s) = rev s"
    using assms by (intro dropWhile_no_leading) (auto simp: hd_rev)
  show ?thesis by (simp add: strip_def front rear)
qed

lemma strip_no_outer_space:
  "strip s = [] \<or> (\<not> is_space (hd (strip s)) \<and> \<not> is_space (last (strip s)))"
proof (cases "strip s = []")
  case True
  then show ?thesis by simp
next
  case False
  let ?a = "dropWhile is_space s"
  let ?b = "dropWhile is_space (rev ?a)"
  have b_ne: "?b \<noteq> []" using False by (simp add: strip_def)
  have a_ne: "?a \<noteq> []"
  proof
    assume empty: "?a = []"
    have "?b = []" unfolding empty by simp
    with b_ne show False by blast
  qed
  have "\<not> is_space (hd ?b)" using b_ne by (rule hd_dropWhile)
  then have trailing: "\<not> is_space (last (strip s))"
    using b_ne by (simp add: strip_def last_rev)
  have "last ?b = last (rev ?a)" using b_ne by (rule last_dropWhile_nonempty)
  also have "\<dots> = hd ?a" using a_ne by (simp add: last_rev)
  finally have "hd (strip s) = hd ?a" using b_ne by (simp add: strip_def hd_rev)
  moreover have "\<not> is_space (hd ?a)" using a_ne by (rule hd_dropWhile)
  ultimately show ?thesis using trailing by simp
qed

lemma set_strip_subset: "set (strip s) \<subseteq> set s"
  by (auto simp: strip_def dest!: set_dropWhileD)

lemma replace_char_absent: "c \<notin> set s \<Longrightarrow> replace_char c r s = s"
  by (induction s) (auto simp: replace_char_def)

lemma replace_char_removes: "c \<notin> set r \<Longrightarrow> c \<notin> set (replace_char c r s)"
  by (induction s) (auto simp: replace_char_def)

text \<open>
  C8. Parsing keeps no state from one line to the next: the records of a list of
  lines are the records of its parts, so a line parsed twice gives the same record
  twice. Cleaning a product name (commas to spaces, then \<open>strip\<close>) changes nothing in
  a name that has no comma and no whitespace at either end, and the cleaned name is
  such a name: cleaning it again returns it unchanged.
\<close>

theorem parse_idempotent:
  "parse_transactions to_int to_float (xs @ ys) =
     parse_transactions to_int to_float xs @ parse_transactions to_int to_float ys
   \<and> parse_transactions to_int to_float [line, line] =
       parse_transactions to_int to_float [line] @ parse_transactions to_int to_float [line]
   \<and> (CHR '','' \<notin> set name \<and> (name = [] \<or> (\<not> is_space (hd name) \<and> \<not> is_space (last name)))
        \<longrightarrow> strip (replace_char CHR '','' '' '' name) = name)
   \<and> strip (replace_char CHR '','' '' '' (strip (replace_char CHR '','' '' '' name))) =
       strip (replace_char CHR '','' '' '' name)
   \<and> (\<forall>t. parse_line to_int to_float line = Some t \<longrightarrow>
          ProductName t = strip (replace_char CHR '','' '' '' (split_on CHR ''|'' line ! 3)))"
proof -
  let ?clean = "\<lambda>n. strip (replace_char CHR '','' '' '' n)"
  have twice: "parse_transactions to_int to_float [line, line] =
      parse_transactions to_int to_float [line] @ parse_transactions to_int to_float [line]"
    using parse_transactions_append [of to_int to_float "[line]" "[line]"] by simp
  have noop: "?clean n = n"
    if "CHR '','' \<notin> set n" "n = [] \<or> (\<not> is_space (hd n) \<and> \<not> is_space (last n))" for n
    using that by (simp add: replace_char_absent strip_clean)
  have "CHR '','' \<notin> set (replace_char CHR '','' '' '' name)"
    by (rule replace_char_removes) simp
  then have no_comma: "CHR '','' \<notin> set (?clean name)"
    using set_strip_subset by blast
  have again: "?clean (?clean name) = ?clean name"
    using no_comma strip_no_outer_space by (intro noop) auto
  have name_of: "ProductName t = ?clean (split_on CHR ''|'' line ! 3)"
    if "parse_line to_int to_float line = Some t" for t
    using that by (auto simp: parse_line_def Let_def split: if_splits option.splits)
  show ?thesis
    using parse_transactions_append twice noop again name_of by blast
qed

theorem parse_idempotent_witness:
  "parse_transactions dec_int dec_float [sample_lines ! 0, sample_lines ! 0] =
     [\<lparr>TransactionID = ''T001'', Date = ''2024-12-01'', ProductID = ''P101'',
        ProductName = ''Mouse Wireless'', Quantity = 10, UnitPrice = Fin 25,
        CustomerID = ''C001'', Region = ''North''\<rparr>,
      \<lparr>TransactionID = ''T001'', Date = ''2024-12-01'', ProductID = ''P101'',
        ProductName = ''Mouse Wireless'', Quantity = 10, UnitPrice = Fin 25,
        CustomerID = ''C001'', Region = ''North''\<rparr>]
   \<and> CHR '','' \<notin> set ''Mouse Wireless''
   \<and> \<not> is_space (hd ''Mouse Wireless'') \<and> \<not> is_space (last ''Mouse Wireless'')
   \<and> strip (replace_char CHR '','' '' '' ''Mouse Wireless'') = ''Mouse Wireless''
   \<and> strip (replace_char CHR '','' '' '' '' Mouse,Wireless, '') = ''Mouse Wireless''"
  using parse_idempotent [of dec_int dec_float "[]" "[]" "sample_lines ! 0" "''Mouse Wireless''"]
  by (simp add: sample_lines_def run_parser)

section \<open>Properties of the enrichment step\<close>

lemma replace_char_empty_filter: "replace_char c [] s = filter (\<lambda>x. x \<noteq> c) s"
  by (induction s) (simp_all add: replace_char_def)

lemma remove_P_is_strip_leading_P:
  "CHR ''P'' \<notin> set (strip_leading_P s) \<Longrightarrow> replace_char CHR ''P'' [] s = strip_leading_P s"
  by (cases s) (auto simp: replace_char_empty_filter strip_leading_P_def filter_id_conv split: if_splits)

lemmas run_enrich =
  enrich_def enrich_as_specified_def strip_leading_P_def sample_product_map_def
  p1p2_record_def p12_record_def p404_record_def

text \<open>
  C3, as the specification states it, fails: \<open>replace('P', '')\<close> removes every \<open>P\<close>,
  not a single leading one. For the product id \<open>P1P2\<close> the code converts \<open>12\<close> and
  finds the product keyed by the integer 12, so the transaction is flagged enriched;
  stripping one leading \<open>P\<close> leaves \<open>1P2\<close>, which is no integer, and the fallback
  lookup of the string \<open>P1P2\<close> finds nothing.
\<close>

theorem enrich_strips_every_P_counterexample:
  "enriched (enrich dec_int sample_product_map p1p2_record) = True
   \<and> enriched (enrich_as_specified dec_int sample_product_map p1p2_record) = False"
  by (simp add: run_enrich run_parser)

text \<open>
  C3, amended. For every transaction, integer converter and product mapping, the
  enrichment step removes every \<open>P\<close> from the product id and converts the rest: when
  the conversion succeeds the lookup is by that integer key alone, when it fails the
  lookup is by the original product id string. The transaction is flagged enriched
  exactly when the lookup found a product, so a transaction with no match is flagged
  \<open>enriched = False\<close>. Where the product id has no \<open>P\<close> other than a single leading
  one, this is the lookup the specification describes.
\<close>

theorem enrich_lookup:
  "base (enrich to_int product_map t) = t
   \<and> api_info (enrich to_int product_map t) =
       (case to_int (filter (\<lambda>c. c \<noteq> CHR ''P'') (ProductID t)) of
          Some pid_int \<Rightarrow> product_map (IntKey pid_int)
        | None \<Rightarrow> product_map (StrKey (ProductID t)))
   \<and> enriched (enrich to_int product_map t) = (api_info (enrich to_int product_map t) \<noteq> None)
   \<and> (CHR ''P'' \<notin> set (strip_leading_P (ProductID t)) \<longrightarrow>
        enrich to_int product_map t = enrich_as_specified to_int product_map t)"
proof -
  let ?key = "filter (\<lambda>c. c \<noteq> CHR ''P'') (ProductID t)"
  have code_key: "replace_char CHR ''P'' [] (ProductID t) = ?key"
    by (rule replace_char_empty_filter)
  have found: "api_info (enrich to_int product_map t) =
      (case to_int ?key of
         Some pid_int \<Rightarrow> product_map (IntKey pid_int)
       | None \<Rightarrow> product_map (StrKey (ProductID t)))"
    unfolding enrich_def code_key by (simp add: Let_def split: option.splits)
  have flag: "enriched (enrich to_int product_map t) = (api_info (enrich to_int product_map t) \<noteq> None)"
    unfolding enrich_def by (simp add: Let_def split: option.splits)
  have copy: "base (enrich to_int product_map t) = t"
    unfolding enrich_def by (simp add: Let_def split: option.splits)
  have agree: "enrich to_int product_map t = enrich_as_specified to_int product_map t"
    if "CHR ''P'' \<notin> set (strip_leading_P (ProductID t))"
    unfolding enrich_def enrich_as_specified_def remove_P_is_strip_leading_P [OF that]
    by (simp add: Let_def)
  show ?thesis using found flag copy agree by blast
qed

theorem enrich_lookup_witness:
  "CHR ''P'' \<notin> set (strip_leading_P (ProductID p12_record))
   \<and> enrich dec_int sample_product_map p12_record =
       \<lparr>base = p12_record, api_info = Some sample_info, enriched = True\<rparr>
   \<and> enrich_as_specified dec_int sample_product_map p12_record =
       \<lparr>base = p12_record, api_info = Some sample_info, enriched = True\<rparr>
   \<and> enrich dec_int sample_product_map p404_record =
       \<lparr>base = p404_record, api_info = None, enriched = False\<rparr>"
  using enrich_lookup [of dec_int sample_product_map p12_record]
    enrich_lookup [of dec_int sample_product_map p404_record]
  by (simp add: run_enrich run_parser)

section \<open>Properties of the aggregation engine\<close>

subsection \<open>The grouping loop\<close>

lemma upsert_keys:
  "map fst (upsert k init f d) = (if k \<in> set (map fst d) then map fst d else map fst d @ [k])"
  by (induction d) (auto split: if_splits)

lemma upsert_lookup:
  "map_of (upsert k init f d) k' =
     (if k' = k then Some (f (case map_of d k of None \<Rightarrow> init | Some v \<Rightarrow> v)) else map_of d k')"
  by (induction d) auto

lemma accumulate_snoc:
  "accumulate key init step (ts @ [t]) =
     upsert (key t) init (step t) (accumulate key init step ts)"
  by (simp add: accumulate_def)

lemma accumulate_keys: "map fst (accumulate key init step ts) = first_seen (map key ts)"
proof (induction ts rule: rev_induct)
  case Nil
  show ?case by (simp add: accumulate_def first_seen_def)
next
  case (snoc t ts)
  have seen: "set (first_seen (map key ts)) = key ` set ts"
    by (simp add: first_seen_def)
  show ?case
    unfolding accumulate_snoc upsert_keys snoc.IH seen
    by (simp add: first_seen_def)
qed

lemma distinct_first_seen: "distinct (first_seen ks)"
  by (simp add: first_seen_def)

lemma set_first_seen: "set (first_seen ks) = set ks"
  by (simp add: first_seen_def)

lemma filter_absent_key: "k \<notin> key ` set ts \<Longrightarrow> filter (\<lambda>t. key t = k) ts = []"
  by (auto simp: filter_empty_conv)

lemma accumulate_lookup:
  "map_of (accumulate key init step ts) k =
     (if k \<in> key ` set ts
      then Some (foldl (\<lambda>v t. step t v) init (filter (\<lambda>t. key t = k) ts))
      else None)"
proof (induction ts rule: rev_induct)
  case Nil
  show ?case by (simp add: accumulate_def)
next
  case (snoc t ts)
  show ?case
  proof (cases "k = key t")
    case True
    then show ?thesis
      unfolding accumulate_snoc upsert_lookup
      by (simp add: snoc.IH [unfolded True] True filter_absent_key)
  next
    case False
    then show ?thesis
      unfolding accumulate_snoc upsert_lookup
      using snoc.IH by auto
  qed
qed

lemma assoc_list_by_keys:
  assumes "distinct (map fst d)"
  shows "map (\<lambda>k. (k, the (map_of d k))) (map fst d) = d"
proof -
  have "(fst p, the (map_of d (fst p))) = p" if "p \<in> set d" for p
  proof -
    have "map_of d (fst p) = Some (snd p)"
      using assms that by simp
    then show ?thesis by simp
  qed
  then show ?thesis
    unfolding map_map comp_def by (rule map_idI)
qed

text \<open>
  The result of the loop, in closed form: one entry per key, in the order of first
  encounter, holding the fold of the update over the transactions of that key.
\<close>

lemma accumulate_closed_form:
  "accumulate key init step ts =
     map (\<lambda>k. (k, foldl (\<lambda>v t. step t v) init (filter (\<lambda>t. key t = k) ts)))
       (first_seen (map key ts))"
proof -
  let ?d = "accumulate key init step ts"
  have "distinct (map fst ?d)"
    by (simp add: accumulate_keys distinct_first_seen)
  then have "?d = map (\<lambda>k. (k, the (map_of ?d k))) (map fst ?d)"
    by (rule assoc_list_by_keys [symmetric])
  also have "\<dots> = map (\<lambda>k. (k, the (map_of ?d k))) (first_seen (map key ts))"
    by (simp add: accumulate_keys)
  also have "\<dots> = map (\<lambda>k. (k, foldl (\<lambda>v t. step t v) init (filter (\<lambda>t. key t = k) ts)))
       (first_seen (map key ts))"
    by (rule map_cong) (auto simp: accumulate_lookup set_first_seen)
  finally show ?thesis .
qed

lemma fold_sum_count:
  "foldl (\<lambda>v t. (\<lambda>(s, n). (pf_add s (amount t), n + 1)) v) (a, m) xs =
     (foldl pf_add a (map amount xs), m + int (length xs))"
  by (induction xs arbitrary: a m) simp_all

lemma fold_sum_count_set:
  "foldl (\<lambda>v t. (\<lambda>(s, n, S). (pf_add s (amount t), n + 1, insert (g t) S)) v) (a, m, A) xs =
     (foldl pf_add a (map amount xs), m + int (length xs), A \<union> g ` set xs)"
  by (induction xs arbitrary: a m A) simp_all

lemma aggregate_regions_closed_form:
  "aggregate_regions ts =
     map (\<lambda>r. (r, calculate_total_revenue (filter (\<lambda>t. Region t = r) ts),
                  int (length (filter (\<lambda>t. Region t = r) ts))))
       (first_seen (map Region ts))"
  by (simp add: aggregate_regions_def accumulate_closed_form fold_sum_count
      calculate_total_revenue_def)

lemma aggregate_customers_closed_form:
  "aggregate_customers ts =
     map (\<lambda>c. (c, calculate_total_revenue (filter (\<lambda>t. CustomerID t = c) ts),
                  int (length (filter (\<lambda>t. CustomerID t = c) ts)),
                  ProductName ` set (filter (\<lambda>t. CustomerID t = c) ts)))
       (first_seen (map CustomerID ts))"
  by (simp add: aggregate_customers_def accumulate_closed_form fold_sum_count_set
      calculate_total_revenue_def)

lemma aggregate_days_closed_form:
  "aggregate_days ts =
     map (\<lambda>d. (d, calculate_total_revenue (filter (\<lambda>t. Date t = d) ts),
                  int (length (filter (\<lambda>t. Date t = d) ts)),
                  CustomerID ` set (filter (\<lambda>t. Date t = d) ts)))
       (first_seen (map Date ts))"
  by (simp add: aggregate_days_def accumulate_closed_form fold_sum_count_set
      calculate_total_revenue_def)

lemma map_result_total:
  "(\<And>x. x \<in> set xs \<Longrightarrow> f x = Inr (g x)) \<Longrightarrow> map_result f xs = Inr (map g xs)"
  by (induction xs) simp_all

lemma set_sorted_reverse: "set (sorted_reverse k xs) = set xs"
  by (simp add: sorted_reverse_def)

lemma filter_nonempty_length: "x \<in> set xs \<Longrightarrow> P x \<Longrightarrow> 0 < length (filter P xs)"
  by (induction xs) auto

subsection \<open>customer\_analysis\<close>

lemma finalize_customer_positive:
  "0 < n \<Longrightarrow>
     finalize_customer (c, spent, n, ps) =
       Inr (c, \<lparr>total_spent = round2 spent, purchase_count = n,
                avg_order_value = round2 (pf_quotient spent (Fin (of_int n))),
                products_bought = ps\<rparr>)"
  by (simp add: finalize_customer_def pf_truediv_def)

text \<open>
  C10. Every entry that the aggregation loop of \<open>customer_analysis\<close> builds has a
  purchase count of at least 1, because an entry is created only when a transaction
  of that customer is met and is counted at once. So the test \<open>purchase_count > 0\<close>
  never fails and the branch returning 0 is never taken: for every entry the average
  is the quotient, and the function returns (no \<open>ZeroDivisionError\<close>). In the result
  there is an entry exactly for the customer ids of the input, its purchase count is
  the number of that customer's transactions, and its \<open>avg_order_value\<close> is the
  unrounded total spend of the customer divided by the purchase count, rounded to 2
  decimals.
\<close>

theorem customer_purchase_count_positive:
  "(\<forall>entry \<in> set (aggregate_customers ts).
      case entry of
        (c, spent, n, ps) \<Rightarrow>
          0 < n
          \<and> finalize_customer entry =
              Inr (c, \<lparr>total_spent = round2 spent, purchase_count = n,
                       avg_order_value = round2 (pf_quotient spent (Fin (of_int n))),
                       products_bought = ps\<rparr>))
   \<and> (\<exists>result.
         customer_analysis ts = Inr result
         \<and> fst ` set result = CustomerID ` set ts
         \<and> (\<forall>item \<in> set result.
               case item of
                 (c, stats) \<Rightarrow>
                   1 \<le> purchase_count stats
                   \<and> purchase_count stats = int (length (filter (\<lambda>t. CustomerID t = c) ts))
                   \<and> avg_order_value stats =
                       round2 (pf_quotient
                                 (calculate_total_revenue (filter (\<lambda>t. CustomerID t = c) ts))
                                 (Fin (of_int (purchase_count stats))))))"
proof -
  let ?own = "\<lambda>c. filter (\<lambda>t. CustomerID t = c) ts"
  let ?entry = "\<lambda>c. (c, calculate_total_revenue (?own c), int (length (?own c)),
                      ProductName ` set (?own c))"
  let ?final = "\<lambda>entry. case entry of (c, spent, n, ps) \<Rightarrow>
                  (c, \<lparr>total_spent = round2 spent, purchase_count = n,
                       avg_order_value = round2 (pf_quotient spent (Fin (of_int n))),
                       products_bought = ps\<rparr>)"
  have entries: "aggregate_customers ts = map ?entry (first_seen (map CustomerID ts))"
    by (rule aggregate_customers_closed_form)
  have positive: "0 < n" if "(c, spent, n, ps) \<in> set (aggregate_customers ts)" for c spent n ps
  proof -
    from that have "c \<in> CustomerID ` set ts" and n: "n = int (length (?own c))"
      by (auto simp: entries set_first_seen)
    then obtain t where "t \<in> set ts" "CustomerID t = c" by auto
    then have "0 < length (?own c)" by (rule filter_nonempty_length)
    with n show ?thesis by simp
  qed
  have no_error: "finalize_customer entry = Inr (?final entry)"
    if "entry \<in> set (aggregate_customers ts)" for entry
  proof -
    obtain c spent n ps where e: "entry = (c, spent, n, ps)" by (cases entry) auto
    with that have "0 < n" using positive by blast
    then show ?thesis unfolding e by (simp add: finalize_customer_positive)
  qed
  then have finals: "map_result finalize_customer (aggregate_customers ts) =
      Inr (map ?final (aggregate_customers ts))"
    by (rule map_result_total)
  let ?result = "sorted_reverse (\<lambda>item. total_spent (snd item)) (map ?final (aggregate_customers ts))"
  have returns: "customer_analysis ts = Inr ?result"
    by (simp add: customer_analysis_def finals)
  have members: "set ?result = (\<lambda>c. ?final (?entry c)) ` CustomerID ` set ts"
    by (simp add: set_sorted_reverse entries set_first_seen image_image)
  have keys: "fst ` set ?result = CustomerID ` set ts"
    unfolding members by (auto simp: image_image)
  have each: "1 \<le> purchase_count stats
      \<and> purchase_count stats = int (length (?own c))
      \<and> avg_order_value stats =
          round2 (pf_quotient (calculate_total_revenue (?own c)) (Fin (of_int (purchase_count stats))))"
    if "(c, stats) \<in> set ?result" for c stats
  proof -
    from that obtain t where t: "t \<in> set ts" and c: "c = CustomerID t"
      and stats: "(c, stats) = ?final (?entry c)"
      unfolding members by auto
    from t c have "0 < length (?own c)" by (intro filter_nonempty_length) auto
    then have pos: "1 \<le> int (length (?own c))" by linarith
    from stats have count: "purchase_count stats = int (length (?own c))"
      and avg: "avg_order_value stats =
          round2 (pf_quotient (calculate_total_revenue (?own c))
                    (Fin (of_int (int (length (?own c))))))"
      by auto
    show ?thesis
      unfolding count using pos avg by blast
  qed
  have first: "\<forall>entry \<in> set (aggregate_customers ts).
      case entry of
        (c, spent, n, ps) \<Rightarrow>
          0 < n
          \<and> finalize_customer entry =
              Inr (c, \<lparr>total_spent = round2 spent, purchase_count = n,
                       avg_order_value = round2 (pf_quotient spent (Fin (of_int n))),
                       products_bought = ps\<rparr>)"
    using positive no_error by fastforce
  show ?thesis
    using first returns keys each by blast
qed

theorem customer_purchase_count_positive_witness:
  "customer_analysis sample_records =
     Inr [(''C001'', \<lparr>total_spent = Fin 350, purchase_count = 2, avg_order_value = Fin 175,
                      products_bought = {''Mouse Wireless''}\<rparr>),
          (''C003'', \<lparr>total_spent = Fin 3, purchase_count = 1, avg_order_value = Fin 3,
                      products_bought = {''Pen''}\<rparr>),
          (''C002'', \<lparr>total_spent = Fin 0, purchase_count = 1, avg_order_value = Fin 0,
                      products_bought = {''Keyboard''}\<rparr>)]
   \<and> aggregate_customers sample_records =
       [(''C001'', Fin 350, 2, {''Mouse Wireless''}),
        (''C002'', Fin 0, 1, {''Keyboard''}),
        (''C003'', Fin 3, 1, {''Pen''})]"
proof -
  have run: "customer_analysis sample_records =
     Inr [(''C001'', \<lparr>total_spent = Fin 350, purchase_count = 2, avg_order_value = Fin 175,
                      products_bought = {''Mouse Wireless''}\<rparr>),
          (''C003'', \<lparr>total_spent = Fin 3, purchase_count = 1, avg_order_value = Fin 3,
                      products_bought = {''Pen''}\<rparr>),
          (''C002'', \<lparr>total_spent = Fin 0, purchase_count = 1, avg_order_value = Fin 0,
                      products_bought = {''Keyboard''}\<rparr>)]"
    by code_simp
  have loop: "aggregate_customers sample_records =
       [(''C001'', Fin 350, 2, {''Mouse Wireless''}),
        (''C002'', Fin 0, 1, {''Keyboard''}),
        (''C003'', Fin 3, 1, {''Pen''})]"
    by code_simp
  show ?thesis
    using customer_purchase_count_positive [of sample_records] run loop by simp
qed

subsection \<open>daily\_sales\_trend and find\_peak\_sales\_day\<close>

lemma pf_lt_irrefl: "\<not> pf_lt x x"
  by (simp add: pf_lt_rank)

lemma pf_lt_keeps_max: "pf_lt b y \<Longrightarrow> \<not> pf_lt b v \<Longrightarrow> \<not> pf_lt y v"
  by (auto simp: pf_lt_rank)

lemma pf_lt_beats_earlier: "pf_lt b y \<Longrightarrow> \<not> pf_lt b v \<Longrightarrow> \<not> pf_le y v"
  by (auto simp: pf_lt_rank pf_le_rank)

lemma max_by_key_snoc:
  "max_by_key k x (rest @ [y]) =
     (if pf_gt (k y) (k (max_by_key k x rest)) then y else max_by_key k x rest)"
  by (simp add: max_by_key_def)

lemma max_by_key_index:
  "\<exists>i < length (x # rest).
      max_by_key k x rest = (x # rest) ! i
      \<and> (\<forall>j < length (x # rest). \<not> pf_lt (k ((x # rest) ! i)) (k ((x # rest) ! j)))
      \<and> (\<forall>j < i. \<not> pf_le (k ((x # rest) ! i)) (k ((x # rest) ! j)))"
proof (induction rest rule: rev_induct)
  case Nil
  show ?case by (simp add: max_by_key_def pf_lt_irrefl)
next
  case (snoc y rest)
  let ?xs = "x # rest"
  let ?ys = "x # rest @ [y]"
  from snoc.IH obtain i where i: "i < length ?xs"
    and best: "max_by_key k x rest = ?xs ! i"
    and top: "\<forall>j < length ?xs. \<not> pf_lt (k (?xs ! i)) (k (?xs ! j))"
    and first: "\<forall>j < i. \<not> pf_le (k (?xs ! i)) (k (?xs ! j))"
    by blast
  have ys: "?ys = ?xs @ [y]" by simp
  have old: "?ys ! j = ?xs ! j" if "j < length ?xs" for j
    unfolding ys using that by (simp only: nth_append if_True)
  have new: "?ys ! length ?xs = y"
    unfolding ys by (simp only: nth_append_length)
  show ?case
  proof (cases "pf_gt (k y) (k (max_by_key k x rest))")
    case True
    then have beats: "pf_lt (k (?xs ! i)) (k y)" by (simp add: pf_gt_def best)
    have "\<not> pf_lt (k y) (k (?ys ! j))" if "j < length ?ys" for j
    proof (cases "j < length ?xs")
      case True
      with top have "\<not> pf_lt (k (?xs ! i)) (k (?xs ! j))" by blast
      with beats have "\<not> pf_lt (k y) (k (?xs ! j))" by (rule pf_lt_keeps_max)
      then show ?thesis using old [OF True] by simp
    next
      case False
      with that have "j = length ?xs" by simp
      then show ?thesis using new by (simp add: pf_lt_irrefl)
    qed
    moreover have "\<not> pf_le (k y) (k (?ys ! j))" if "j < length ?xs" for j
    proof -
      from top that have "\<not> pf_lt (k (?xs ! i)) (k (?xs ! j))" by blast
      with beats have "\<not> pf_le (k y) (k (?xs ! j))" by (rule pf_lt_beats_earlier)
      then show ?thesis using old [OF that] by simp
    qed
    moreover have "max_by_key k x (rest @ [y]) = ?ys ! length ?xs"
      using True new by (simp add: max_by_key_snoc)
    ultimately show ?thesis
      by (intro exI [of _ "length ?xs"]) (simp del: nth_Cons_Suc add: new)
  next
    case False
    then have keep: "max_by_key k x (rest @ [y]) = ?ys ! i"
      using old [OF i] best by (simp add: max_by_key_snoc)
    have same: "?ys ! i = ?xs ! i" using old [OF i] .
    have "\<not> pf_lt (k (?ys ! i)) (k (?ys ! j))" if "j < length ?ys" for j
    proof (cases "j < length ?xs")
      case True
      with top show ?thesis using old [OF True] same by simp
    next
      case False
      with that have "j = length ?xs" by simp
      then show ?thesis
        using \<open>\<not> pf_gt (k y) (k (max_by_key k x rest))\<close> new same best
        by (simp add: pf_gt_def)
    qed
    moreover have "\<not> pf_le (k (?ys ! i)) (k (?ys ! j))" if "j < i" for j
    proof -
      from that i have "j < length ?xs" by simp
      from old [OF this] first that same show ?thesis by simp
    qed
    moreover have "i < length ?ys" using i by simp
    ultimately show ?thesis using keep by blast
  qed
qed

lemma distinct_map_sort_key:
  "distinct (map f (sort_key f xs)) = distinct (map f xs)"
  by (simp add: distinct_map)

lemma daily_trend_dates:
  "sorted_wrt (<) (map fst (daily_sales_trend ts))
   \<and> set (map fst (daily_sales_trend ts)) = Date ` set ts"
proof -
  let ?d = "map finalize_day (aggregate_days ts)"
  have keys: "map fst ?d = first_seen (map Date ts)"
    by (simp add: aggregate_days_closed_form finalize_day_def comp_def)
  then have "distinct (map fst ?d)"
    by (simp add: distinct_first_seen)
  then have "distinct (map fst (sort_key fst ?d))"
    by (simp only: distinct_map_sort_key)
  moreover have "sorted (map fst (sort_key fst ?d))"
    by (rule sorted_sort_key)
  moreover have "set (map fst (sort_key fst ?d)) = Date ` set ts"
    using keys set_first_seen [of "map Date ts"]
    by (metis list.set_map set_sort)
  ultimately show ?thesis
    by (simp add: daily_sales_trend_def strict_sorted_iff)
qed

lemma daily_trend_entry:
  "(d, s) \<in> set (daily_sales_trend ts) \<Longrightarrow>
     d \<in> Date ` set ts
     \<and> s = \<lparr>revenue = round2 (calculate_total_revenue (filter (\<lambda>t. Date t = d) ts)),
            transaction_count = int (length (filter (\<lambda>t. Date t = d) ts)),
            unique_customers = int (card (CustomerID ` set (filter (\<lambda>t. Date t = d) ts)))\<rparr>"
  by (auto simp: daily_sales_trend_def aggregate_days_closed_form finalize_day_def set_first_seen)

lemma daily_trend_empty: "(daily_sales_trend ts = []) = (ts = [])"
proof -
  have "(daily_sales_trend ts = []) = (set (map fst (daily_sales_trend ts)) = {})"
    by simp
  also have "\<dots> = (ts = [])"
    unfolding daily_trend_dates [THEN conjunct2] by simp
  finally show ?thesis .
qed

text \<open>
  C4. \<open>find_peak_sales_day\<close> returns \<open>None\<close> exactly for the empty transaction set.
  Otherwise it returns the date, revenue and transaction count of an entry of the
  daily trend, whose revenue is the day's total rounded to 2 decimals, such that no
  entry has a greater revenue and no entry of an earlier date has a revenue as great:
  the first maximum of the trend in ascending date order. When no daily revenue is
  \<open>nan\<close> this says that every revenue is at most the returned one and every earlier
  day's revenue is strictly less. (With a \<open>nan\<close> revenue no entry is above all others;
  the first two statements still hold.)
\<close>

theorem peak_sales_day:
  "(find_peak_sales_day ts = None) = (ts = [])
   \<and> (ts \<noteq> [] \<longrightarrow>
        (\<exists>d s. find_peak_sales_day ts = Some (d, revenue s, daily_stats.transaction_count s)
           \<and> (d, s) \<in> set (daily_sales_trend ts)
           \<and> revenue s = round2 (calculate_total_revenue (filter (\<lambda>t. Date t = d) ts))
           \<and> daily_stats.transaction_count s = int (length (filter (\<lambda>t. Date t = d) ts))
           \<and> (\<forall>item \<in> set (daily_sales_trend ts).
                 \<not> pf_lt (revenue s) (revenue (snd item))
                 \<and> (fst item < d \<longrightarrow> \<not> pf_le (revenue s) (revenue (snd item))))
           \<and> ((\<forall>item \<in> set (daily_sales_trend ts). revenue (snd item) \<noteq> NaN) \<longrightarrow>
                (\<forall>item \<in> set (daily_sales_trend ts).
                   pf_le (revenue (snd item)) (revenue s)
                   \<and> (fst item < d \<longrightarrow> pf_lt (revenue (snd item)) (revenue s))))))"
proof -
  let ?trend = "daily_sales_trend ts"
  let ?k = "\<lambda>item. revenue (snd item)"
  have none: "(find_peak_sales_day ts = None) = (ts = [])"
    using daily_trend_empty [of ts]
    by (cases "daily_sales_trend ts") (auto simp: find_peak_sales_day_def Let_def)
  have some: "\<exists>d s. find_peak_sales_day ts = Some (d, revenue s, daily_stats.transaction_count s)
           \<and> (d, s) \<in> set ?trend
           \<and> revenue s = round2 (calculate_total_revenue (filter (\<lambda>t. Date t = d) ts))
           \<and> daily_stats.transaction_count s = int (length (filter (\<lambda>t. Date t = d) ts))
           \<and> (\<forall>item \<in> set ?trend.
                 \<not> pf_lt (revenue s) (?k item)
                 \<and> (fst item < d \<longrightarrow> \<not> pf_le (revenue s) (?k item)))
           \<and> ((\<forall>item \<in> set ?trend. ?k item \<noteq> NaN) \<longrightarrow>
                (\<forall>item \<in> set ?trend.
                   pf_le (?k item) (revenue s)
                   \<and> (fst item < d \<longrightarrow> pf_lt (?k item) (revenue s))))"
    if "ts \<noteq> []"
  proof -
    from that obtain x rest where trend: "?trend = x # rest"
      using daily_trend_empty [of ts] by (cases ?trend) auto
    from max_by_key_index [of x rest ?k] obtain i where i: "i < length ?trend"
      and best: "max_by_key ?k x rest = ?trend ! i"
      and top: "\<forall>j < length ?trend. \<not> pf_lt (?k (?trend ! i)) (?k (?trend ! j))"
      and first: "\<forall>j < i. \<not> pf_le (?k (?trend ! i)) (?k (?trend ! j))"
      unfolding trend by blast
    obtain d s where ds: "?trend ! i = (d, s)" by (cases "?trend ! i")
    have member: "(d, s) \<in> set ?trend"
      using i ds by (metis nth_mem)
    have result: "find_peak_sales_day ts = Some (d, revenue s, daily_stats.transaction_count s)"
      using best ds by (simp add: find_peak_sales_day_def trend Let_def)
    have dates: "sorted_wrt (<) (map fst ?trend)"
      using daily_trend_dates by blast
    have earlier: "j < i" if j: "j < length ?trend" and lt: "fst (?trend ! j) < d" for j
    proof (rule ccontr)
      assume "\<not> j < i"
      then have "i \<le> j" by simp
      then have "fst (?trend ! i) \<le> fst (?trend ! j)"
      proof (cases "i = j")
        case True
        then show ?thesis by simp
      next
        case False
        with \<open>i \<le> j\<close> have "i < j" by simp
        have "map fst ?trend ! i < map fst ?trend ! j"
          using dates \<open>i < j\<close> j by (intro sorted_wrt_nth_less) simp_all
        with i j show ?thesis by simp
      qed
      with lt ds show False by simp
    qed
    have bound: "\<not> pf_lt (revenue s) (?k item)
        \<and> (fst item < d \<longrightarrow> \<not> pf_le (revenue s) (?k item))"
      if "item \<in> set ?trend" for item
    proof -
      from that obtain j where j: "j < length ?trend" and item: "item = ?trend ! j"
        by (metis in_set_conv_nth)
      from top j have "\<not> pf_lt (revenue s) (?k item)"
        unfolding item using ds by simp
      moreover have "\<not> pf_le (revenue s) (?k item)" if "fst item < d"
      proof -
        from that have "j < i" using earlier [OF j] item by simp
        with first show ?thesis unfolding item using ds by simp
      qed
      ultimately show ?thesis by blast
    qed
    have total: "pf_le (?k item) (revenue s)
        \<and> (fst item < d \<longrightarrow> pf_lt (?k item) (revenue s))"
      if numbers: "\<forall>item \<in> set ?trend. ?k item \<noteq> NaN" and item: "item \<in> set ?trend" for item
    proof -
      from numbers item member have "?k item \<noteq> NaN" "revenue s \<noteq> NaN" by auto
      with bound [OF item] show ?thesis
        by (auto simp: pf_lt_rank pf_le_rank)
    qed
    from daily_trend_entry [OF member] have
      "revenue s = round2 (calculate_total_revenue (filter (\<lambda>t. Date t = d) ts))"
      "daily_stats.transaction_count s = int (length (filter (\<lambda>t. Date t = d) ts))"
      by simp_all
    with result member bound total show ?thesis by blast
  qed
  from none some show ?thesis by blast
qed

theorem peak_sales_day_witness:
  "tie_records \<noteq> []
   \<and> list_all (\<lambda>item. revenue (snd item) \<noteq> NaN) (daily_sales_trend tie_records)
   \<and> daily_sales_trend tie_records =
       [(''2024-12-01'', \<lparr>revenue = Fin 250, transaction_count = 1, unique_customers = 1\<rparr>),
        (''2024-12-02'', \<lparr>revenue = Fin 250, transaction_count = 2, unique_customers = 1\<rparr>),
        (''2024-12-03'', \<lparr>revenue = Fin 100, transaction_count = 1, unique_customers = 1\<rparr>)]
   \<and> find_peak_sales_day tie_records = Some (''2024-12-01'', Fin 250, 1)
   \<and> find_peak_sales_day tie_records \<noteq> None
   \<and> find_peak_sales_day [] = None"
proof -
  have trend: "daily_sales_trend tie_records =
       [(''2024-12-01'', \<lparr>revenue = Fin 250, transaction_count = 1, unique_customers = 1\<rparr>),
        (''2024-12-02'', \<lparr>revenue = Fin 250, transaction_count = 2, unique_customers = 1\<rparr>),
        (''2024-12-03'', \<lparr>revenue = Fin 100, transaction_count = 1, unique_customers = 1\<rparr>)]"
    by code_simp
  have peak: "find_peak_sales_day tie_records = Some (''2024-12-01'', Fin 250, 1)"
    by code_simp
  have nonempty: "tie_records \<noteq> []"
    by (simp add: tie_records_def)
  have numbers: "list_all (\<lambda>item. revenue (snd item) \<noteq> NaN) (daily_sales_trend tie_records)"
    unfolding trend by simp
  have found: "find_peak_sales_day tie_records \<noteq> None"
    using peak_sales_day [of tie_records] nonempty by blast
  have empty: "find_peak_sales_day [] = None"
    using peak_sales_day [of "[]"] by blast
  from nonempty numbers trend peak found empty show ?thesis
    by (intro conjI)
qed

text \<open>
  Claim C4 at a revenue that is \<open>nan\<close>. Both records of \<open>nan_day_records\<close> pass
  validation. The trend has the revenue \<open>nan\<close> on 2024-12-01 and \<open>100.0\<close> on
  2024-12-02; \<open>max\<close> starts from the first day and \<open>100.0 > nan\<close> is false, so
  \<open>find_peak_sales_day\<close> returns the first day with the revenue \<open>nan\<close>, which is
  not the maximum of the two revenues.
\<close>

theorem peak_sales_day_nan_revenue:
  "list_all is_valid nan_day_records
   \<and> map (\<lambda>item. (fst item, revenue (snd item))) (daily_sales_trend nan_day_records)
       = [(''2024-12-01'', NaN), (''2024-12-02'', Fin 100)]
   \<and> find_peak_sales_day nan_day_records = Some (''2024-12-01'', NaN, 1)
   \<and> \<not> pf_ge NaN (Fin 100)"
  by code_simp

subsection \<open>region\_wise\_sales\<close>

lemma pf_add_not_nan:
  "(pf_add a x \<noteq> NaN) = (a \<noteq> NaN \<and> x \<noteq> NaN \<and> \<not> (a = PInf \<and> x = NInf) \<and> \<not> (a = NInf \<and> x = PInf))"
  by (cases a; cases x) simp_all

lemma pf_add_inf:
  "pf_add a x \<noteq> NaN \<Longrightarrow> (pf_add a x = PInf) = (a = PInf \<or> x = PInf)"
  "pf_add a x \<noteq> NaN \<Longrightarrow> (pf_add a x = NInf) = (a = NInf \<or> x = NInf)"
  by (cases a; cases x; simp)+

lemma foldl_pf_add_not_nan:
  "(foldl pf_add a xs \<noteq> NaN) =
     (a \<noteq> NaN \<and> NaN \<notin> set xs \<and> \<not> (PInf \<in> insert a (set xs) \<and> NInf \<in> insert a (set xs)))"
proof (induction xs arbitrary: a)
  case Nil
  show ?case by (cases a) simp_all
next
  case (Cons x xs)
  show ?case
  proof (cases "pf_add a x = NaN")
    case True
    then show ?thesis
      unfolding foldl_Cons Cons.IH using pf_add_not_nan [of a x] by auto
  next
    case False
    then show ?thesis
      unfolding foldl_Cons Cons.IH
      using pf_add_not_nan [of a x] pf_add_inf [OF False]
      by (cases a; cases x) auto
  qed
qed

lemma subtotal_not_nan:
  assumes "calculate_total_revenue ts \<noteq> NaN"
  shows "calculate_total_revenue (filter P ts) \<noteq> NaN"
proof -
  have "set (map amount (filter P ts)) \<subseteq> set (map amount ts)" by auto
  with assms show ?thesis
    unfolding calculate_total_revenue_def foldl_pf_add_not_nan by blast
qed

lemma round2_not_nan: "(round2 x = NaN) = (x = NaN)"
  by (cases x) simp_all

lemma finalize_region_nonzero:
  "\<not> pf_eq total_revenue (Fin 0) \<Longrightarrow>
     finalize_region total_revenue (r, sales, n) =
       Inr (r, \<lparr>total_sales = round2 sales, transaction_count = n,
                percentage = round2 (pf_mul (pf_quotient sales total_revenue) (Fin 100))\<rparr>)"
  by (simp add: finalize_region_def pf_truediv_def)

lemma region_wise_sales_nonzero:
  assumes "\<not> pf_eq (calculate_total_revenue ts) (Fin 0)"
  shows "region_wise_sales ts =
     Inr (sorted_reverse (\<lambda>item. total_sales (snd item))
            (map (region_entry ts) (first_seen (map Region ts))))"
proof -
  let ?total = "calculate_total_revenue ts"
  let ?final = "\<lambda>entry. case entry of (r, sales, n) \<Rightarrow>
      (r, \<lparr>total_sales = round2 sales, transaction_count = n,
           percentage = round2 (pf_mul (pf_quotient sales ?total) (Fin 100))\<rparr>)"
  have "finalize_region ?total entry = Inr (?final entry)" for entry
    using assms by (cases entry) (simp add: finalize_region_nonzero)
  then have "map_result (finalize_region ?total) (aggregate_regions ts) =
      Inr (map ?final (aggregate_regions ts))"
    by (intro map_result_total)
  moreover have "map ?final (aggregate_regions ts) =
      map (region_entry ts) (first_seen (map Region ts))"
    by (simp add: aggregate_regions_closed_form region_entry_def Let_def)
  ultimately show ?thesis
    using assms by (simp add: region_wise_sales_def Let_def)
qed

lemma sorted_reverse_descending:
  "sorted_wrt (\<lambda>a b. pf_rank (k b) \<le> pf_rank (k a)) (sorted_reverse k xs)"
proof -
  have "sorted (map (\<lambda>item. pf_rank (k item)) (sort_key (\<lambda>item. pf_rank (k item)) (rev xs)))"
    by (rule sorted_sort_key)
  then have "sorted_wrt (\<lambda>a b. pf_rank (k a) \<le> pf_rank (k b))
      (sort_key (\<lambda>item. pf_rank (k item)) (rev xs))"
    by (simp add: sorted_map)
  then show ?thesis
    by (simp add: sorted_reverse_def sorted_wrt_rev)
qed

lemma sorted_reverse_stable:
  "filter (\<lambda>item. k item = v) (sorted_reverse k xs) = filter (\<lambda>item. k item = v) xs"
proof -
  let ?f = "\<lambda>item. pf_rank (k item)"
  have same: "(\<lambda>item. k item = v) = (\<lambda>item. ?f item = pf_rank v)"
    by (simp add: pf_rank_inject)
  have "filter (\<lambda>item. ?f item = pf_rank v) (sort_key ?f (rev xs)) =
      filter (\<lambda>item. ?f item = pf_rank v) (rev xs)"
    by (rule sort_key_stable)
  then show ?thesis
    unfolding sorted_reverse_def same rev_filter [symmetric] by (simp add: rev_filter)
qed

lemma distinct_keys_sorted_reverse:
  "distinct (map fst (sorted_reverse k xs)) = distinct (map fst xs)"
  by (simp add: sorted_reverse_def distinct_map)

text \<open>
  C2. When the total revenue is exactly zero, \<open>region_wise_sales\<close> returns the empty
  mapping. When the total revenue is a number other than zero, it returns (without
  raising) one entry for each region of the input, and the entry of a region is
  \<open>region_entry\<close>: the count of the region's transactions, the region's total
  rounded to 2 decimals, and as percentage the unrounded region total divided by the
  unrounded total revenue, times 100, rounded to 2 decimals. The entries are in
  descending order of the rounded total sales, and entries with the same rounded
  total keep the order in which their regions are first encountered.
\<close>

theorem region_wise_sales_breakdown:
  "(pf_eq (calculate_total_revenue ts) (Fin 0) \<longrightarrow> region_wise_sales ts = Inr [])
   \<and> (calculate_total_revenue ts \<noteq> NaN \<and> \<not> pf_eq (calculate_total_revenue ts) (Fin 0) \<longrightarrow>
        (\<exists>result.
           region_wise_sales ts = Inr result
           \<and> set result = region_entry ts ` Region ` set ts
           \<and> distinct (map fst result)
           \<and> sorted_wrt (\<lambda>a b. pf_ge (total_sales (snd a)) (total_sales (snd b))) result
           \<and> (\<forall>v. filter (\<lambda>item. total_sales (snd item) = v) result =
                  filter (\<lambda>item. total_sales (snd item) = v)
                    (map (region_entry ts) (first_seen (map Region ts))))))"
proof -
  let ?total = "calculate_total_revenue ts"
  let ?k = "\<lambda>item. total_sales (snd item)"
  let ?entries = "map (region_entry ts) (first_seen (map Region ts))"
  let ?result = "sorted_reverse ?k ?entries"
  have zero: "region_wise_sales ts = Inr []" if "pf_eq ?total (Fin 0)"
    using that by (simp add: region_wise_sales_def)
  have nonzero: "\<exists>result.
           region_wise_sales ts = Inr result
           \<and> set result = region_entry ts ` Region ` set ts
           \<and> distinct (map fst result)
           \<and> sorted_wrt (\<lambda>a b. pf_ge (?k a) (?k b)) result
           \<and> (\<forall>v. filter (\<lambda>item. ?k item = v) result = filter (\<lambda>item. ?k item = v) ?entries)"
    if number: "?total \<noteq> NaN" and not_zero: "\<not> pf_eq ?total (Fin 0)"
  proof -
    have returns: "region_wise_sales ts = Inr ?result"
      using not_zero by (rule region_wise_sales_nonzero)
    have members: "set ?result = region_entry ts ` Region ` set ts"
      by (simp add: set_sorted_reverse set_first_seen)
    have "map fst ?entries = first_seen (map Region ts)"
      by (simp add: region_entry_def Let_def comp_def)
    then have keys: "distinct (map fst ?result)"
      by (simp add: distinct_keys_sorted_reverse distinct_first_seen)
    have numbers: "?k item \<noteq> NaN" if "item \<in> set ?result" for item
    proof -
      from that obtain r where "item = region_entry ts r"
        unfolding members by blast
      then have "?k item = round2 (calculate_total_revenue (filter (\<lambda>t. Region t = r) ts))"
        by (simp add: region_entry_def Let_def)
      then show ?thesis
        using subtotal_not_nan [OF number] by (simp add: round2_not_nan)
    qed
    have "sorted_wrt (\<lambda>a b. pf_rank (?k b) \<le> pf_rank (?k a)) ?result"
      by (rule sorted_reverse_descending)
    then have descending: "sorted_wrt (\<lambda>a b. pf_ge (?k a) (?k b)) ?result"
    proof (rule sorted_wrt_mono_rel [rotated])
      fix a b
      assume "a \<in> set ?result" "b \<in> set ?result" "pf_rank (?k b) \<le> pf_rank (?k a)"
      then show "pf_ge (?k a) (?k b)"
        using numbers by (simp add: pf_ge_def pf_le_rank)
    qed
    have stable: "filter (\<lambda>item. ?k item = v) ?result = filter (\<lambda>item. ?k item = v) ?entries" for v
      by (rule sorted_reverse_stable)
    from returns members keys descending stable show ?thesis by blast
  qed
  from zero nonzero show ?thesis by blast
qed

theorem region_wise_sales_breakdown_witness:
  "calculate_total_revenue tie_records = Fin 600
   \<and> region_wise_sales tie_records =
       Inr [(''South'', \<lparr>total_sales = Fin 400, transaction_count = 2,
                          percentage = Fin (6667 / 100)\<rparr>),
            (''North'', \<lparr>total_sales = Fin 100, transaction_count = 1,
                          percentage = Fin (1667 / 100)\<rparr>),
            (''East'', \<lparr>total_sales = Fin 100, transaction_count = 1,
                         percentage = Fin (1667 / 100)\<rparr>)]
   \<and> calculate_total_revenue [] = Fin 0
   \<and> region_wise_sales [] = Inr []"
proof -
  have total: "calculate_total_revenue tie_records = Fin 600"
    by code_simp
  have run: "region_wise_sales tie_records =
       Inr [(''South'', \<lparr>total_sales = Fin 400, transaction_count = 2,
                          percentage = Fin (6667 / 100)\<rparr>),
            (''North'', \<lparr>total_sales = Fin 100, transaction_count = 1,
                          percentage = Fin (1667 / 100)\<rparr>),
            (''East'', \<lparr>total_sales = Fin 100, transaction_count = 1,
                         percentage = Fin (1667 / 100)\<rparr>)]"
    by code_simp
  have empty: "calculate_total_revenue [] = Fin 0"
    by (simp add: calculate_total_revenue_def)
  show ?thesis
    using region_wise_sales_breakdown [of tie_records] region_wise_sales_breakdown [of "[]"]
      total run empty
    by simp
qed

subsection \<open>The sum of the region percentages\<close>

lemma round_half_even_error: "\<bar>of_int (round_half_even x) - x\<bar> \<le> 1 / 2"
proof -
  have "of_int \<lfloor>x\<rfloor> \<le> x" "x < of_int \<lfloor>x\<rfloor> + 1"
    by linarith+
  then show ?thesis
    by (auto simp: round_half_even_def Let_def abs_le_iff)
qed

lemma foldl_pf_add_fin: "foldl pf_add (Fin a) (map Fin qs) = Fin (a + sum_list qs)"
  by (induction qs arbitrary: a) (simp_all add: add.assoc)

lemma pf_add_fin: "pf_add a x = Fin r \<Longrightarrow> (\<exists>p. a = Fin p) \<and> (\<exists>q. x = Fin q)"
  by (cases a; cases x) simp_all

lemma foldl_pf_add_finite:
  "foldl pf_add a xs = Fin r \<Longrightarrow> (\<exists>p. a = Fin p) \<and> (\<forall>x \<in> set xs. \<exists>q. x = Fin q)"
proof (induction xs arbitrary: a)
  case Nil
  then show ?case by simp
next
  case (Cons x xs)
  from Cons.prems have "foldl pf_add (pf_add a x) xs = Fin r" by simp
  from Cons.IH [OF this] obtain p where "pf_add a x = Fin p"
    and rest: "\<forall>y \<in> set xs. \<exists>q. y = Fin q" by blast
  with pf_add_fin [of a x p] show ?case by auto
qed

lemma total_of_finite_amounts:
  assumes "\<forall>t \<in> set ts. amount t = Fin (v t)"
  shows "calculate_total_revenue (filter P ts) = Fin (sum_list (map v (filter P ts)))"
proof -
  have "map amount (filter P ts) = map Fin (map v (filter P ts))"
    using assms by simp
  then show ?thesis
    by (simp only: calculate_total_revenue_def foldl_pf_add_fin) simp
qed

lemma sum_list_pick:
  "distinct ks \<Longrightarrow> sum_list (map (\<lambda>k. if k0 = k then c else 0) ks) = (if k0 \<in> set ks then c else (0::rat))"
  by (induction ks) auto

lemma sum_list_by_group:
  fixes v :: "'t \<Rightarrow> rat"
  assumes "distinct ks" and "key ` set ts \<subseteq> set ks"
  shows "sum_list (map (\<lambda>k. sum_list (map v (filter (\<lambda>t. key t = k) ts))) ks) = sum_list (map v ts)"
  using assms(2)
proof (induction ts)
  case Nil
  show ?case by simp
next
  case (Cons t ts)
  have split: "sum_list (map v (filter (\<lambda>u. key u = k) (t # ts))) =
      (if key t = k then v t else 0) + sum_list (map v (filter (\<lambda>u. key u = k) ts))" for k
    by simp
  have "sum_list (map (\<lambda>k. sum_list (map v (filter (\<lambda>u. key u = k) (t # ts)))) ks) =
      sum_list (map (\<lambda>k. if key t = k then v t else 0) ks)
      + sum_list (map (\<lambda>k. sum_list (map v (filter (\<lambda>u. key u = k) ts))) ks)"
    unfolding split by (simp add: sum_list_addf)
  also have "\<dots> = v t + sum_list (map v ts)"
    using Cons assms(1) by (simp add: sum_list_pick)
  finally show ?case by simp
qed

lemma sum_list_close:
  fixes f g :: "'a \<Rightarrow> rat"
  assumes "\<forall>x \<in> set xs. \<bar>f x - g x\<bar> \<le> c"
  shows "\<bar>sum_list (map f xs) - sum_list (map g xs)\<bar> \<le> of_nat (length xs) * c"
  using assms
proof (induction xs)
  case Nil
  show ?case by simp
next
  case (Cons x xs)
  then have "\<bar>f x - g x\<bar> \<le> c" "\<bar>sum_list (map f xs) - sum_list (map g xs)\<bar> \<le> of_nat (length xs) * c"
    by simp_all
  then show ?case by (simp add: algebra_simps abs_le_iff)
qed

lemma sum_list_insort_key:
  fixes g :: "'a \<Rightarrow> rat"
  shows "sum_list (map g (insort_key f x xs)) = g x + sum_list (map g xs)"
  by (induction xs) simp_all

lemma sum_list_sort_key:
  fixes g :: "'a \<Rightarrow> rat"
  shows "sum_list (map g (sort_key f xs)) = sum_list (map g xs)"
  by (induction xs) (simp_all add: sum_list_insort_key)

lemma sum_list_sorted_reverse:
  fixes g :: "'a \<Rightarrow> rat"
  shows "sum_list (map g (sorted_reverse k xs)) = sum_list (map g xs)"
  by (simp add: sorted_reverse_def sum_list_sort_key rev_map [symmetric])

lemma length_sorted_reverse: "length (sorted_reverse k xs) = length xs"
  by (simp add: sorted_reverse_def)

text \<open>
  C7, as the specification states it, fails. With sixty regions of equal sales the
  total revenue is 60, every region's percentage is \<open>100/60 = 1.666...\<close>, rounded to
  \<open>1.67\<close>, and the sixty rounded percentages add up to \<open>100.2\<close>, which is not within
  \<open>0.1\<close> of 100.
\<close>

theorem region_percentages_counterexample:
  "calculate_total_revenue sixty_regions = Fin 60
   \<and> (case region_wise_sales sixty_regions of
         Inl e \<Rightarrow> False
       | Inr result \<Rightarrow>
           length result = 60
           \<and> percentage_sum result = Fin (501 / 5)
           \<and> \<not> within_of_100 (1 / 10) (percentage_sum result))"
  by code_simp

text \<open>
  C7, amended. For every transaction set whose total revenue is a finite number
  other than zero, the sum of the region percentages differs from 100 by at most
  \<open>0.005\<close> for each region, the most that rounding one percentage to 2 decimals can
  move it; so the sum is within \<open>0.1\<close> of 100 when there are at most 20 regions.
  (Exact arithmetic: the rounding error of the float operations themselves is outside
  the model.)
\<close>

theorem region_percentages_sum_bound:
  assumes finite_total: "calculate_total_revenue ts = Fin total_revenue"
    and not_zero: "total_revenue \<noteq> 0"
  shows "\<exists>result s.
           region_wise_sales ts = Inr result
           \<and> length result = card (Region ` set ts)
           \<and> percentage_sum result = Fin s
           \<and> \<bar>s - 100\<bar> \<le> of_nat (length result) * (5 / 1000)
           \<and> (length result \<le> 20 \<longrightarrow> within_of_100 (1 / 10) (percentage_sum result))"
proof -
  let ?regs = "first_seen (map Region ts)"
  let ?entries = "map (region_entry ts) ?regs"
  let ?result = "sorted_reverse (\<lambda>item. total_sales (snd item)) ?entries"
  have "\<forall>a \<in> set (map amount ts). \<exists>q. a = Fin q"
    using foldl_pf_add_finite [of "Fin 0" "map amount ts" total_revenue] finite_total
    by (simp add: calculate_total_revenue_def)
  then have "\<forall>t \<in> set ts. \<exists>q. amount t = Fin q" by simp
  then obtain v where v: "\<forall>t \<in> set ts. amount t = Fin (v t)"
    by (rule bchoice [THEN exE])
  define region_total where "region_total r = sum_list (map v (filter (\<lambda>t. Region t = r) ts))" for r
  define exact where "exact r = region_total r * (100 / total_revenue)" for r
  define shown where "shown r = of_int (round_half_even (exact r * 100)) / (100::rat)" for r
  have subtotal: "calculate_total_revenue (filter (\<lambda>t. Region t = r) ts) = Fin (region_total r)" for r
    unfolding region_total_def using v by (rule total_of_finite_amounts)
  have "calculate_total_revenue (filter (\<lambda>t. True) ts) = Fin (sum_list (map v (filter (\<lambda>t. True) ts)))"
    using v by (rule total_of_finite_amounts)
  with finite_total have whole: "sum_list (map v ts) = total_revenue" by simp
  have pct: "percentage (snd (region_entry ts r)) = Fin (shown r)" for r
    using not_zero
    by (simp add: region_entry_def Let_def subtotal finite_total shown_def exact_def field_simps)
  have returns: "region_wise_sales ts = Inr ?result"
    using not_zero by (intro region_wise_sales_nonzero) (simp add: finite_total)
  have len: "length ?result = card (Region ` set ts)"
    using distinct_card [OF distinct_first_seen, of "map Region ts"]
    by (simp add: length_sorted_reverse set_first_seen)
  have pcts: "map (\<lambda>item. percentage (snd item)) ?result =
      map Fin (map (\<lambda>item. shown (fst item)) ?result)"
  proof -
    have "percentage (snd item) = Fin (shown (fst item))" if "item \<in> set ?result" for item
    proof -
      from that obtain r where item: "item = region_entry ts r"
        by (auto simp: set_sorted_reverse)
      have "fst (region_entry ts r) = r" by (simp add: region_entry_def Let_def)
      with pct [of r] show ?thesis unfolding item by simp
    qed
    then show ?thesis by simp
  qed
  have "sum_list (map (\<lambda>item. shown (fst item)) ?result) =
      sum_list (map (\<lambda>item. shown (fst item)) ?entries)"
    by (rule sum_list_sorted_reverse)
  also have "\<dots> = sum_list (map shown ?regs)"
    by (simp add: comp_def region_entry_def Let_def)
  finally have sum_shown: "percentage_sum ?result = Fin (sum_list (map shown ?regs))"
    unfolding percentage_sum_def pcts foldl_pf_add_fin by simp
  have groups: "sum_list (map region_total ?regs) = sum_list (map v ts)"
    unfolding region_total_def
    by (rule sum_list_by_group) (simp_all add: distinct_first_seen set_first_seen)
  have "sum_list (map exact ?regs) = sum_list (map region_total ?regs) * (100 / total_revenue)"
    unfolding exact_def by (rule sum_list_mult_const)
  also have "\<dots> = total_revenue * (100 / total_revenue)"
    by (simp only: groups whole)
  also have "\<dots> = 100"
    using not_zero by simp
  finally have sum_exact: "sum_list (map exact ?regs) = 100" .
  have each: "\<bar>shown r - exact r\<bar> \<le> 5 / 1000" for r
  proof -
    have "\<bar>of_int (round_half_even (exact r * 100)) - exact r * 100\<bar> \<le> 1 / 2"
      by (rule round_half_even_error)
    then show ?thesis
      by (simp add: shown_def abs_le_iff field_simps)
  qed
  then have "\<bar>sum_list (map shown ?regs) - sum_list (map exact ?regs)\<bar>
      \<le> of_nat (length ?regs) * (5 / 1000)"
    by (intro sum_list_close) simp
  then have bound: "\<bar>sum_list (map shown ?regs) - 100\<bar> \<le> of_nat (length ?result) * (5 / 1000)"
    by (simp add: sum_exact length_sorted_reverse)
  have small: "within_of_100 (1 / 10) (percentage_sum ?result)" if "length ?result \<le> 20"
  proof -
    from that have "(of_nat (length ?result) :: rat) \<le> 20" by simp
    then have "(of_nat (length ?result) :: rat) * (5 / 1000) \<le> 1 / 10" by simp
    with bound have "\<bar>sum_list (map shown ?regs) - 100\<bar> \<le> 1 / 10" by linarith
    then have "100 - 1 / 10 \<le> sum_list (map shown ?regs)"
      and "sum_list (map shown ?regs) \<le> 100 + 1 / 10"
      by linarith+
    then show ?thesis
      unfolding within_of_100_def sum_shown pf_le_fin by blast
  qed
  from returns len sum_shown bound small show ?thesis by blast
qed

theorem region_percentages_sum_bound_witness:
  "calculate_total_revenue tie_records = Fin 600
   \<and> (case region_wise_sales tie_records of
         Inl e \<Rightarrow> False
       | Inr result \<Rightarrow>
           length result = 3
           \<and> percentage_sum result = Fin (10001 / 100)
           \<and> within_of_100 (1 / 10) (percentage_sum result))"
proof -
  have total: "calculate_total_revenue tie_records = Fin 600"
    by code_simp
  have run: "case region_wise_sales tie_records of
         Inl e \<Rightarrow> False
       | Inr result \<Rightarrow>
           length result = 3
           \<and> percentage_sum result = Fin (10001 / 100)
           \<and> within_of_100 (1 / 10) (percentage_sum result)"
    by code_simp
  have not_zero: "(600::rat) \<noteq> 0" by simp
  show ?thesis
    using region_percentages_sum_bound [OF total not_zero] total run by simp
qed

end
